theory Spec2Isabelle
  imports Main "HOL-Library.Word"
begin

unbundle bit_operations_syntax

section \<open>Data model\<close>

text \<open>
  The codec works on blocks of 32-bit unsigned integers and on byte streams.  A C pointer
  into a byte buffer is modelled by the list of the bytes from the pointer onwards; an
  encoder returns the bytes it has written between the \<open>out\<close> pointer it was given and the
  end pointer it returns, a decoder returns the values it has stored into \<open>out\<close> together
  with the rest of its input (the returned, advanced input pointer).

  C variables of type \<open>unsigned\<close> that hold bit widths, counts and sizes (\<open>n\<close>, \<open>b\<close>,
  \<open>bx\<close>, byte counts) are natural numbers: with at most 256 values of at most 32 bits
  none of them can reach \<open>2^32\<close>.  Values of the block are \<open>32 word\<close>, bitmap and packing
  words are \<open>64 word\<close>.
\<close>

type_synonym byte = "8 word"
type_synonym u16 = "16 word"
type_synonym u32 = "32 word"
type_synonym u64 = "64 word"

text \<open>
  The decoders have no error return.  What can go wrong in them is undefined behaviour of
  the C++ program; the model makes each kind a value.  \<open>CorruptHeader\<close> and \<open>Truncated\<close>
  are the two failure kinds the specification names; no function of the code produces
  them.
\<close>

datatype fault =
    CorruptHeader
  | Truncated
  | ReadPastEnd
  | WritePastEnd
  | TableIndexOutOfRange
  | UnreachableReached
  | ShiftOutOfRange

definition MAX_BITS :: nat where "MAX_BITS = 32"
definition MAX_VALUES :: nat where "MAX_VALUES = 256"

definition pad8 :: "nat \<Rightarrow> nat" where
  "pad8 x = (x + 7) div 8"

text \<open>
  \<open>bitWidth32 x\<close> is 32 minus the number of leading zeros of \<open>x\<close> (0 for \<open>x = 0\<close>),
  the position of the highest set bit plus one; \<open>bit_count\<close> counts it as the portable
  loop of \<open>bsr32\<close> does, one shift per bit.
\<close>

function bit_count :: "nat \<Rightarrow> nat" where
  "bit_count x = (if x = 0 then 0 else Suc (bit_count (x div 2)))"
  by pat_completeness auto
termination
  by (relation "measure id") auto

declare bit_count.simps [simp del]

definition bitWidth32 :: "u32 \<Rightarrow> nat" where
  "bitWidth32 x = bit_count (unat x)"

definition maskBits :: "nat \<Rightarrow> u32" where
  "maskBits b = (if b \<ge> 32 then 0xFFFFFFFF else if b = 0 then 0 else push_bit b 1 - 1)"

subsection \<open>Little-endian loads and stores\<close>

text \<open>
  \<open>le_bytes k v\<close> are the \<open>k\<close> low bytes of \<open>v\<close>, lowest first; \<open>le_word\<close> reads
  bytes back, lowest first.  On every platform the loads and stores of the code
  (\<open>loadU32\<close>, \<open>loadU32Fast\<close>, ...) move little-endian values.
\<close>

primrec le_bytes :: "nat \<Rightarrow> 'a::len word \<Rightarrow> byte list" where
  "le_bytes 0 v = []"
| "le_bytes (Suc k) v = ucast v # le_bytes k (drop_bit 8 v)"

primrec le_word :: "byte list \<Rightarrow> 'a::len word" where
  "le_word [] = 0"
| "le_word (c # cs) = ucast c OR push_bit 8 (le_word cs)"

definition storeU16Fast :: "u16 \<Rightarrow> byte list" where
  "storeU16Fast v = le_bytes 2 v"

definition storeU32Fast :: "u32 \<Rightarrow> byte list" where
  "storeU32Fast v = le_bytes 4 v"

definition storeU32 :: "u32 \<Rightarrow> byte list" where
  "storeU32 v = le_bytes 4 v"

definition storeU64Fast :: "u64 \<Rightarrow> byte list" where
  "storeU64Fast v = le_bytes 8 v"

definition loadU16Fast :: "byte list \<Rightarrow> fault + u16" where
  "loadU16Fast ip = (if length ip < 2 then Inl ReadPastEnd else Inr (le_word (take 2 ip)))"

definition loadU24 :: "byte list \<Rightarrow> fault + u32" where
  "loadU24 ip = (if length ip < 3 then Inl ReadPastEnd else Inr (le_word (take 3 ip)))"

definition loadU32Fast :: "byte list \<Rightarrow> fault + u32" where
  "loadU32Fast ip = (if length ip < 4 then Inl ReadPastEnd else Inr (le_word (take 4 ip)))"

definition loadU32 :: "byte list \<Rightarrow> fault + u32" where
  "loadU32 ip = (if length ip < 4 then Inl ReadPastEnd else Inr (le_word (take 4 ip)))"

definition loadU64Fast :: "byte list \<Rightarrow> fault + u64" where
  "loadU64Fast ip = (if length ip < 8 then Inl ReadPastEnd else Inr (le_word (take 8 ip)))"

definition loadU64 :: "byte list \<Rightarrow> fault + u64" where
  "loadU64 ip = (if length ip < 8 then Inl ReadPastEnd else Inr (le_word (take 8 ip)))"

definition copyU32ArrayToLe :: "u32 list \<Rightarrow> nat \<Rightarrow> byte list" where
  "copyU32ArrayToLe xs n = concat (map storeU32Fast (take n xs))"

fun copyU32ArrayFromLe :: "byte list \<Rightarrow> nat \<Rightarrow> fault + u32 list" where
  "copyU32ArrayFromLe ip 0 = Inr []"
| "copyU32ArrayFromLe ip (Suc n) =
     (case loadU32Fast ip of
        Inl e \<Rightarrow> Inl e
      | Inr v \<Rightarrow>
          (case copyU32ArrayFromLe (drop 4 ip) n of
             Inl e \<Rightarrow> Inl e
           | Inr vs \<Rightarrow> Inr (v # vs)))"

section \<open>Variable-byte codec\<close>

definition VBYTE_ESCAPE_UNCOMPRESSED :: byte where "VBYTE_ESCAPE_UNCOMPRESSED = 0xFF"
definition VBYTE_MARKER_4PLUS :: u32 where "VBYTE_MARKER_4PLUS = 0xFC"
definition VBYTE_MARKER_3BYTE :: u32 where "VBYTE_MARKER_3BYTE = 0xDC"
definition VBYTE_MARKER_2BYTE :: u32 where "VBYTE_MARKER_2BYTE = 0x9C"
definition VBYTE_THRESHOLD_2BYTE :: u32 where "VBYTE_THRESHOLD_2BYTE = 156"
definition VBYTE_THRESHOLD_3BYTE :: u32 where "VBYTE_THRESHOLD_3BYTE = 16540"
definition VBYTE_THRESHOLD_4PLUS :: u32 where "VBYTE_THRESHOLD_4PLUS = 2113692"

lemmas vbyte_consts =
  VBYTE_ESCAPE_UNCOMPRESSED_def VBYTE_MARKER_4PLUS_def VBYTE_MARKER_3BYTE_def
  VBYTE_MARKER_2BYTE_def VBYTE_THRESHOLD_2BYTE_def VBYTE_THRESHOLD_3BYTE_def
  VBYTE_THRESHOLD_4PLUS_def

text \<open>\<open>vbPut32\<close> appends the encoding of one value; the result is the bytes appended.\<close>

definition vbPut32 :: "u32 \<Rightarrow> byte list" where
  "vbPut32 x =
     (if x < VBYTE_THRESHOLD_2BYTE then [ucast x]
      else if x < VBYTE_THRESHOLD_3BYTE then
        (let delta = x - VBYTE_THRESHOLD_2BYTE
         in [ucast (VBYTE_MARKER_2BYTE + drop_bit 8 delta), ucast (delta AND 0xFF)])
      else if x < VBYTE_THRESHOLD_4PLUS then
        (let delta = x - VBYTE_THRESHOLD_3BYTE
         in [ucast (VBYTE_MARKER_3BYTE + drop_bit 16 delta), ucast (delta AND 0xFF),
             ucast (drop_bit 8 delta AND 0xFF)])
      else if x \<le> 0xFFFFFF then
        [ucast VBYTE_MARKER_4PLUS, ucast x, ucast (drop_bit 8 x), ucast (drop_bit 16 x)]
      else ucast (VBYTE_MARKER_4PLUS + 1) # storeU32Fast x)"

text \<open>
  \<open>vbGet32\<close> returns the decoded value and the advanced input.  The 4-byte form
  (marker \<open>0xFC\<close>) loads four bytes and keeps three, so it reads one byte beyond the
  encoding.
\<close>

definition vbGet32 :: "byte list \<Rightarrow> fault + (u32 \<times> byte list)" where
  "vbGet32 ip =
     (case ip of
        [] \<Rightarrow> Inl ReadPastEnd
      | m # ip1 \<Rightarrow>
          (let marker = (ucast m :: u32) in
           if marker < VBYTE_MARKER_2BYTE then Inr (marker, ip1)
           else if marker < VBYTE_MARKER_3BYTE then
             (case ip1 of
                [] \<Rightarrow> Inl ReadPastEnd
              | d # ip2 \<Rightarrow>
                  (let data_byte = (ucast d :: u32);
                       delta = push_bit 8 (marker - VBYTE_MARKER_2BYTE) + data_byte
                   in Inr (delta + VBYTE_THRESHOLD_2BYTE, ip2)))
           else if marker < VBYTE_MARKER_4PLUS then
             (case loadU16Fast ip1 of
                Inl e \<Rightarrow> Inl e
              | Inr low16 \<Rightarrow>
                  Inr (ucast low16 + push_bit 16 (marker - VBYTE_MARKER_3BYTE)
                         + VBYTE_THRESHOLD_3BYTE, drop 2 ip1))
           else if marker = VBYTE_MARKER_4PLUS then
             (case loadU32Fast ip1 of
                Inl e \<Rightarrow> Inl e
              | Inr w \<Rightarrow> Inr (w AND 0xFFFFFF, drop 3 ip1))
           else
             (case loadU32Fast ip1 of
                Inl e \<Rightarrow> Inl e
              | Inr w \<Rightarrow> Inr (w, drop 4 ip1))))"

text \<open>\<open>vbGet32Inline\<close> is the header's copy of the same decoder, used by \<open>vbDec32\<close>.\<close>

definition vbGet32Inline :: "byte list \<Rightarrow> fault + (u32 \<times> byte list)" where
  "vbGet32Inline ip =
     (case ip of
        [] \<Rightarrow> Inl ReadPastEnd
      | m # ip1 \<Rightarrow>
          (let marker = (ucast m :: u32) in
           if marker < VBYTE_MARKER_2BYTE then Inr (marker, ip1)
           else if marker < VBYTE_MARKER_3BYTE then
             (case ip1 of
                [] \<Rightarrow> Inl ReadPastEnd
              | d # ip2 \<Rightarrow>
                  Inr (push_bit 8 (marker - VBYTE_MARKER_2BYTE) + ucast d
                         + VBYTE_THRESHOLD_2BYTE, ip2))
           else if marker < VBYTE_MARKER_4PLUS then
             (case loadU16Fast ip1 of
                Inl e \<Rightarrow> Inl e
              | Inr low16 \<Rightarrow>
                  Inr (ucast low16 + push_bit 16 (marker - VBYTE_MARKER_3BYTE)
                         + VBYTE_THRESHOLD_3BYTE, drop 2 ip1))
           else if marker = VBYTE_MARKER_4PLUS then
             (case loadU32Fast ip1 of
                Inl e \<Rightarrow> Inl e
              | Inr w \<Rightarrow> Inr (w AND 0xFFFFFF, drop 3 ip1))
           else
             (case loadU32Fast ip1 of
                Inl e \<Rightarrow> Inl e
              | Inr w \<Rightarrow> Inr (w, drop 4 ip1))))"

text \<open>
  \<open>vbEnc32\<close>: all values are encoded first; the pointer comparison
  \<open>op + 32 > out + n * 4\<close> compares the encoded size plus 32 with \<open>4 n\<close>.
\<close>

definition vbEnc32 :: "u32 list \<Rightarrow> nat \<Rightarrow> byte list" where
  "vbEnc32 xs n =
     (let op = concat (map vbPut32 (take n xs)) in
      if length op + 32 > n * 4
      then VBYTE_ESCAPE_UNCOMPRESSED # copyU32ArrayToLe xs n
      else op)"

fun vbDec32_loop :: "nat \<Rightarrow> byte list \<Rightarrow> fault + (u32 list \<times> byte list)" where
  "vbDec32_loop 0 ip = Inr ([], ip)"
| "vbDec32_loop (Suc k) ip =
     (case vbGet32Inline ip of
        Inl e \<Rightarrow> Inl e
      | Inr (x, ip') \<Rightarrow>
          (case vbDec32_loop k ip' of
             Inl e \<Rightarrow> Inl e
           | Inr (xs, r) \<Rightarrow> Inr (x # xs, r)))"

definition vbDec32 :: "byte list \<Rightarrow> nat \<Rightarrow> fault + (u32 list \<times> byte list)" where
  "vbDec32 ip n =
     (case ip of
        [] \<Rightarrow> Inl ReadPastEnd
      | m # ip1 \<Rightarrow>
          if m = VBYTE_ESCAPE_UNCOMPRESSED then
            (case copyU32ArrayFromLe ip1 n of
               Inl e \<Rightarrow> Inl e
             | Inr vs \<Rightarrow> Inr (vs, drop (n * 4) ip1))
          else vbDec32_loop n ip)"

section \<open>Bit-width analyzer\<close>

text \<open>
  The state of the candidate loop of \<open>p4Bits32\<close>.  \<open>vbyte_accumulator\<close> is the array
  \<open>vbyte_accumulator_storage\<close> of 144 counters; the code addresses it through a pointer
  offset by \<open>MAX_BITS + 16 = 48\<close>, so its index \<open>i\<close> (down to \<open>-25\<close>) is entry
  \<open>i + 48\<close> here.
\<close>

record p4bits_state =
  min_size :: nat
  optimal_base_bits :: nat
  use_vbyte_exceptions :: nat
  exception_count :: nat
  vbyte_size_accumulator :: nat
  vbyte_accumulator :: "nat list"

definition update_vbyte_accumulator :: "nat list \<Rightarrow> nat \<Rightarrow> nat \<Rightarrow> nat list" where
  "update_vbyte_accumulator vb count bits =
     (let vb1 = vb[bits + 48 - 7 := vb ! (bits + 48 - 7) + count];
          vb2 = vb1[bits + 48 - 15 := vb1 ! (bits + 48 - 15) + count * 2];
          vb3 = vb2[bits + 48 - 19 := vb2 ! (bits + 48 - 19) + count * 3];
          vb4 = vb3[bits + 48 - 25 := vb3 ! (bits + 48 - 25) + count * 4]
      in vb4)"

definition vbyte_size_at :: "nat \<Rightarrow> nat \<Rightarrow> p4bits_state \<Rightarrow> nat" where
  "vbyte_size_at n base_bits s =
     pad8 (n * base_bits) + 2 + exception_count s + vbyte_size_accumulator s"

definition patching_size_at :: "nat \<Rightarrow> nat \<Rightarrow> nat \<Rightarrow> p4bits_state \<Rightarrow> nat" where
  "patching_size_at n max_bits base_bits s =
     pad8 (n * base_bits) + 2 + pad8 n + pad8 (exception_count s * (max_bits - base_bits))"

text \<open>The choice made in one iteration of the loop, at candidate \<open>base_bits\<close>.\<close>

definition p4Bits32_choose :: "nat \<Rightarrow> nat \<Rightarrow> nat \<Rightarrow> p4bits_state \<Rightarrow> p4bits_state" where
  "p4Bits32_choose n max_bits base_bits s =
     (let vbyte_size = vbyte_size_at n base_bits s;
          patching_size = patching_size_at n max_bits base_bits s
      in if patching_size < min_size s \<and> patching_size \<le> vbyte_size then
           s\<lparr>min_size := patching_size, optimal_base_bits := base_bits,
              use_vbyte_exceptions := 0\<rparr>
         else if vbyte_size < min_size s then
           s\<lparr>min_size := vbyte_size, optimal_base_bits := base_bits,
              use_vbyte_exceptions := 1\<rparr>
         else s)"

text \<open>The update of the counters at the end of the iteration at \<open>base_bits\<close>.\<close>

definition p4Bits32_advance :: "nat list \<Rightarrow> nat \<Rightarrow> p4bits_state \<Rightarrow> p4bits_state" where
  "p4Bits32_advance bit_width_count base_bits s =
     s\<lparr>exception_count := exception_count s + bit_width_count ! base_bits,
        vbyte_size_accumulator :=
          vbyte_size_accumulator s + bit_width_count ! base_bits
            + vbyte_accumulator s ! (base_bits + 48),
        vbyte_accumulator :=
          update_vbyte_accumulator (vbyte_accumulator s) (bit_width_count ! base_bits) base_bits\<rparr>"

fun p4Bits32_loop :: "nat \<Rightarrow> nat \<Rightarrow> nat list \<Rightarrow> nat \<Rightarrow> p4bits_state \<Rightarrow> p4bits_state" where
  "p4Bits32_loop n max_bits bit_width_count 0 s = p4Bits32_choose n max_bits 0 s"
| "p4Bits32_loop n max_bits bit_width_count (Suc k) s =
     p4Bits32_loop n max_bits bit_width_count k
       (p4Bits32_advance bit_width_count (Suc k) (p4Bits32_choose n max_bits (Suc k) s))"

definition p4Bits32_histogram :: "u32 list \<Rightarrow> nat list" where
  "p4Bits32_histogram xs =
     fold (\<lambda>v cnt. cnt[bitWidth32 v := cnt ! bitWidth32 v + 1]) xs (replicate (MAX_BITS + 8) 0)"

definition p4Bits32_init :: "nat \<Rightarrow> nat \<Rightarrow> nat list \<Rightarrow> p4bits_state" where
  "p4Bits32_init n max_bits bit_width_count =
     \<lparr>min_size = pad8 (n * max_bits) + 1,
      optimal_base_bits = max_bits,
      use_vbyte_exceptions = 0,
      exception_count = bit_width_count ! max_bits,
      vbyte_size_accumulator = bit_width_count ! max_bits,
      vbyte_accumulator =
        update_vbyte_accumulator (replicate (MAX_BITS * 2 + 64 + 16) 0)
          (bit_width_count ! max_bits) max_bits\<rparr>"

text \<open>
  \<open>p4Bits32 xs n\<close> returns the pair of the base width (the C return value) and the
  strategy marker written to \<open>*out_exception_bits\<close>.  It reads \<open>in[0..n)\<close>.
\<close>

definition p4Bits32 :: "u32 list \<Rightarrow> nat \<Rightarrow> nat \<times> nat" where
  "p4Bits32 xs n =
     (let bitwise_or = fold (\<lambda>v acc. acc OR v) (take n xs) 0;
          first_value = xs ! 0;
          equal_count = fold (\<lambda>v c. c + (if v = first_value then 1 else 0)) (take n xs) 0
      in if bitwise_or = 0 then (0, 0)
         else
           (let max_bits = bitWidth32 bitwise_or
            in if equal_count = n then (max_bits, MAX_BITS + 2)
               else
                 (let bit_width_count = p4Bits32_histogram (take n xs);
                      s = p4Bits32_loop n max_bits bit_width_count (max_bits - 1)
                            (p4Bits32_init n max_bits bit_width_count)
                  in (optimal_base_bits s,
                      if use_vbyte_exceptions s \<noteq> 0 then MAX_BITS + 1
                      else max_bits - optimal_base_bits s))))"

definition writeHeader :: "nat \<Rightarrow> nat \<Rightarrow> byte list" where
  "writeHeader b bx =
     (if bx = 0 then [of_nat b]
      else if bx \<le> MAX_BITS then [of_nat (0x80 OR b), of_nat bx]
      else (let flag = (if bx = MAX_BITS + 1 then 0x40 else 0xC0) in [of_nat (flag OR b)]))"

section \<open>Horizontal bit packing\<close>

function gcd_u32 :: "nat \<Rightarrow> nat \<Rightarrow> nat" where
  "gcd_u32 a b = (if b = 0 then a else gcd_u32 b (a mod b))"
  by pat_completeness auto
termination
  by (relation "measure snd") auto

declare gcd_u32.simps [simp del]

definition word_count_for :: "nat \<Rightarrow> nat \<Rightarrow> nat" where
  "word_count_for b n = (n * b + 63) div 64"

definition max_words_for_gcd :: "nat \<Rightarrow> nat" where
  "max_words_for_gcd g = (if g \<le> 2 then 12 else 16)"

text \<open>The first loop of \<open>choose_block_size\<close>: halve \<open>k\<close> while it is above 1 and above \<open>n\<close>.\<close>

function cbs_shrink :: "nat \<Rightarrow> nat \<Rightarrow> nat" where
  "cbs_shrink n k = (if k > 1 \<and> k > n then cbs_shrink n (k div 2) else k)"
  by pat_completeness auto
termination
  by (relation "measure snd") auto

declare cbs_shrink.simps [simp del]

text \<open>The second loop: the first halving of \<open>k\<close> that is byte aligned and small enough.\<close>

function cbs_search :: "nat \<Rightarrow> nat \<Rightarrow> nat \<Rightarrow> nat \<Rightarrow> nat" where
  "cbs_search b max_words n k =
     (if word_count_for b k \<le> max_words \<and> (k * b) mod 8 = 0 then k
      else if k = 1 then n
      else cbs_search b max_words n (k div 2))"
  by pat_completeness auto
termination
proof (relation "measure (\<lambda>(b, max_words, n, k). k)")
  show "wf (measure (\<lambda>(b, max_words, n, k). k))" by simp
next
  fix b max_words n k :: nat
  assume a: "\<not> (word_count_for b k \<le> max_words \<and> k * b mod 8 = 0)" and k1: "k \<noteq> 1"
  have "k \<noteq> 0"
  proof
    assume "k = 0"
    with a show False by (simp add: word_count_for_def)
  qed
  with k1 show "((b, max_words, n, k div 2), (b, max_words, n, k))
      \<in> measure (\<lambda>(b, max_words, n, k). k)" by simp
qed

declare cbs_search.simps [simp del]

definition choose_block_size :: "nat \<Rightarrow> nat \<Rightarrow> nat" where
  "choose_block_size b n =
     (if n = 0 then 0
      else
        (let g = gcd_u32 64 b;
             period = 64 div g;
             max_words = max_words_for_gcd g;
             k = cbs_shrink n period;
             k' = (if k > n then 1 else k)
         in cbs_search b max_words n k'))"

definition store_partial :: "nat \<Rightarrow> u64 \<Rightarrow> byte list" where
  "store_partial R v =
     (if R \<ge> 4 then
        storeU32Fast (ucast v) @
        (if R \<ge> 6 then
           storeU16Fast (ucast (drop_bit 32 v)) @ (if R = 7 then [ucast (drop_bit 48 v)] else [])
         else if R = 5 then [ucast (drop_bit 32 v)]
         else [])
      else if R \<ge> 2 then
        storeU16Fast (ucast v) @ (if R = 3 then [ucast (drop_bit 16 v)] else [])
      else [ucast v])"

text \<open>
  \<open>pack_one\<close> ORs element \<open>Base + I\<close> of the input into the 64-bit words \<open>w\<close> at bit
  position \<open>I * B\<close>.
\<close>

definition pack_one :: "nat \<Rightarrow> nat \<Rightarrow> u32 list \<Rightarrow> nat \<Rightarrow> u64 list \<Rightarrow> u64 list" where
  "pack_one B Base xs I w =
     (let idx = Base + I;
          bitpos = I * B;
          wi = bitpos div 64;
          sh = bitpos mod 64;
          w1 = w[wi := w ! wi OR push_bit sh (ucast (xs ! idx))]
      in if sh + B > 64
         then w1[wi + 1 := w1 ! (wi + 1) OR drop_bit (64 - sh) (ucast (xs ! idx))]
         else w1)"

definition pack_all :: "nat \<Rightarrow> nat \<Rightarrow> nat \<Rightarrow> u32 list \<Rightarrow> u64 list \<Rightarrow> u64 list" where
  "pack_all B Base K xs w = fold (pack_one B Base xs) [0..<K] w"

definition pack_block :: "nat \<Rightarrow> nat \<Rightarrow> nat \<Rightarrow> u32 list \<Rightarrow> byte list" where
  "pack_block B K Base xs =
     (let total_bits = K * B;
          total_bytes = (total_bits + 7) div 8;
          word_count = (total_bits + 63) div 64;
          last_bytes = total_bytes - (word_count - 1) * 8;
          w = pack_all B Base K xs (replicate word_count 0)
      in concat (map storeU64Fast (take (word_count - 1) w)) @
         (if last_bytes = 8 then storeU64Fast (w ! (word_count - 1))
          else store_partial last_bytes (w ! (word_count - 1))))"

text \<open>
  \<open>pack_blocks<B, N, Base>\<close> packs \<open>N\<close> elements from index \<open>Base\<close> in blocks of
  \<open>choose_block_size B N\<close> elements.  The template recursion ends because a block is
  never empty.
\<close>

function pack_blocks :: "nat \<Rightarrow> nat \<Rightarrow> nat \<Rightarrow> u32 list \<Rightarrow> byte list" where
  "pack_blocks B N Base xs =
     (if N = 0 then []
      else
        (let block = choose_block_size B N
         in pack_block B block Base xs @
            (if N = block then [] else pack_blocks B (N - block) (Base + block) xs)))"
  by pat_completeness auto
termination
proof (relation "measure (\<lambda>(B, N, Base, xs). N)")
  show "wf (measure (\<lambda>(B, N, Base, xs). N))" by simp
next
  fix B N Base :: nat and xs :: "u32 list" and x :: nat
  assume N: "N \<noteq> 0" and x: "x = choose_block_size B N"
  have g: "gcd_u32 a b = gcd a b" for a b
    by (induction a b rule: gcd_u32.induct) (subst gcd_u32.simps, simp add: gcd_red_nat [symmetric])
  have shr: "0 < k \<Longrightarrow> 0 < cbs_shrink n k" for n k
  proof (induction n k rule: cbs_shrink.induct)
    case (1 n k)
    show ?case using 1 by (subst cbs_shrink.simps) auto
  qed
  have srch: "0 < k \<Longrightarrow> 0 < n \<Longrightarrow> 0 < cbs_search b m n k" for b m n k
  proof (induction b m n k rule: cbs_search.induct)
    case (1 b m n k)
    show ?case using 1 by (subst cbs_search.simps) auto
  qed
  have "0 < gcd 64 B" by simp
  moreover have "gcd 64 B \<le> 64" by (rule gcd_le1_nat) simp
  ultimately have "0 < 64 div gcd_u32 64 B" by (simp add: g div_greater_zero_iff)
  hence "0 < cbs_shrink N (64 div gcd_u32 64 B)" by (rule shr)
  hence "0 < x" using N unfolding x choose_block_size_def Let_def
    by (auto intro!: srch)
  thus "((B, N - x, Base + x, xs), (B, N, Base, xs)) \<in> measure (\<lambda>(B, N, Base, xs). N)"
    using N by simp
qed

declare pack_blocks.simps [simp del]

definition pack_n_b :: "nat \<Rightarrow> nat \<Rightarrow> u32 list \<Rightarrow> byte list" where
  "pack_n_b B N xs =
     (if B = 32 then copyU32ArrayToLe xs N
      else if B = 16 then concat (map (\<lambda>v. storeU16Fast (ucast v)) (take N xs))
      else if B = 8 then map ucast (take N xs)
      else pack_blocks B N 0 xs)"

text \<open>
  \<open>bitpack_b<B>\<close>: whole blocks of 32 elements while at least 32 remain, then the
  remaining \<open>n mod 32\<close> elements through \<open>pack_dispatch_n\<close>.
\<close>

function bitpack_b :: "nat \<Rightarrow> u32 list \<Rightarrow> nat \<Rightarrow> byte list" where
  "bitpack_b B xs n =
     (if n \<ge> 32 then pack_n_b B 32 xs @ bitpack_b B (drop 32 xs) (n - 32)
      else if n = 0 then []
      else pack_n_b B n xs)"
  by pat_completeness auto
termination
  by (relation "measure (\<lambda>(B, xs, n). n)") auto

declare bitpack_b.simps [simp del]

text \<open>
  \<open>Bitpack32ScalarImpl::dispatch\<close>: the function table has 33 entries and is indexed
  by \<open>b\<close> without a check, so a width above 32 is a fault of the model.
\<close>

definition bitpack32Scalar :: "u32 list \<Rightarrow> nat \<Rightarrow> nat \<Rightarrow> fault + byte list" where
  "bitpack32Scalar xs n b =
     (if b = 0 then Inr []
      else if b = 32 then Inr (copyU32ArrayToLe xs n)
      else if b > 32 then Inl TableIndexOutOfRange
      else Inr (bitpack_b b xs n))"

section \<open>Horizontal bit unpacking\<close>

definition load_partial :: "nat \<Rightarrow> byte list \<Rightarrow> fault + u64" where
  "load_partial R ip =
     (if length ip < R then Inl ReadPastEnd
      else Inr
        (if R \<ge> 4 then
           ucast (le_word (take 4 ip) :: u32) OR
           (if R \<ge> 6 then
              push_bit 32 (ucast (le_word (take 2 (drop 4 ip)) :: u16)) OR
              (if R = 7 then push_bit 48 (ucast (ip ! 6)) else 0)
            else if R = 5 then push_bit 32 (ucast (ip ! 4))
            else 0)
         else if R \<ge> 2 then
           ucast (le_word (take 2 ip) :: u16) OR
           (if R = 3 then push_bit 16 (ucast (ip ! 2)) else 0)
         else ucast (ip ! 0)))"

fun load_words :: "nat \<Rightarrow> byte list \<Rightarrow> fault + u64 list" where
  "load_words 0 ip = Inr []"
| "load_words (Suc k) ip =
     (case loadU64Fast ip of
        Inl e \<Rightarrow> Inl e
      | Inr w \<Rightarrow>
          (case load_words k (drop 8 ip) of
             Inl e \<Rightarrow> Inl e
           | Inr ws \<Rightarrow> Inr (w # ws)))"

text \<open>
  \<open>unpack_emit_one\<close> extracts element \<open>I\<close> of a block from the loaded words.  The
  values stored so far and the running accumulator \<open>acc\<close> are the state; element
  \<open>Base + I\<close> is stored behind the elements before it.
\<close>

definition unpack_emit_one ::
  "bool \<Rightarrow> nat \<Rightarrow> nat \<Rightarrow> u64 list \<Rightarrow> nat \<Rightarrow> u32 list \<times> u32 \<Rightarrow> u32 list \<times> u32" where
  "unpack_emit_one Delta1 B Base w I st =
     (let out = fst st;
          acc = snd st;
          idx = Base + I;
          bitpos = I * B;
          wi = bitpos div 64;
          sh = bitpos mod 64;
          mask = (ucast (push_bit B (1 :: u64) - 1) :: u32);
          v0 = drop_bit sh (w ! wi);
          v = (if sh + B > 64 then v0 OR push_bit (64 - sh) (w ! (wi + 1)) else v0)
      in if Delta1 then
           (let acc' = acc + (ucast v AND mask) in (out @ [acc' + of_nat (idx + 1)], acc'))
         else (out @ [ucast v AND mask], acc))"

definition unpack_emit ::
  "bool \<Rightarrow> nat \<Rightarrow> nat \<Rightarrow> nat \<Rightarrow> u64 list \<Rightarrow> u32 \<Rightarrow> u32 list \<times> u32" where
  "unpack_emit Delta1 B Base K w acc = fold (unpack_emit_one Delta1 B Base w) [0..<K] ([], acc)"

text \<open>
  \<open>unpack_block\<close> returns the \<open>K\<close> values of the block, the accumulator and the
  advanced input.
\<close>

definition unpack_block ::
  "bool \<Rightarrow> nat \<Rightarrow> nat \<Rightarrow> nat \<Rightarrow> byte list \<Rightarrow> u32 \<Rightarrow> fault + (u32 list \<times> u32 \<times> byte list)" where
  "unpack_block Delta1 B K Base ip acc =
     (let total_bits = K * B;
          total_bytes = (total_bits + 7) div 8;
          word_count = (total_bits + 63) div 64;
          last_bytes = total_bytes - (word_count - 1) * 8
      in case load_words (word_count - 1) ip of
           Inl e \<Rightarrow> Inl e
         | Inr ws \<Rightarrow>
             (let ip1 = drop ((word_count - 1) * 8) ip
              in case (if last_bytes = 8 then loadU64Fast ip1 else load_partial last_bytes ip1) of
                   Inl e \<Rightarrow> Inl e
                 | Inr wl \<Rightarrow>
                     (let r = unpack_emit Delta1 B Base K (ws @ [wl]) acc
                      in Inr (fst r, snd r, drop last_bytes ip1))))"

function unpack_blocks ::
  "bool \<Rightarrow> nat \<Rightarrow> nat \<Rightarrow> nat \<Rightarrow> byte list \<Rightarrow> u32 \<Rightarrow> fault + (u32 list \<times> byte list)" where
  "unpack_blocks Delta1 B N Base ip acc =
     (if N = 0 then Inr ([], ip)
      else
        (let block = choose_block_size B N
         in case unpack_block Delta1 B block Base ip acc of
              Inl e \<Rightarrow> Inl e
            | Inr (vs, acc', ip') \<Rightarrow>
                if N = block then Inr (vs, ip')
                else
                  (case unpack_blocks Delta1 B (N - block) (Base + block) ip' acc' of
                     Inl e \<Rightarrow> Inl e
                   | Inr (ws, ip'') \<Rightarrow> Inr (vs @ ws, ip''))))"
  by pat_completeness auto
termination
proof (relation "measure (\<lambda>(Delta1, B, N, Base, ip, acc). N)")
  show "wf (measure (\<lambda>(Delta1, B, N, Base, ip, acc). N))" by simp
next
  fix Delta1 :: bool and B N Base :: nat and ip ip' :: "byte list" and acc acc' :: u32
    and x :: nat
  assume N: "N \<noteq> 0" and x: "x = choose_block_size B N"
  have g: "gcd_u32 a b = gcd a b" for a b
    by (induction a b rule: gcd_u32.induct) (subst gcd_u32.simps, simp add: gcd_red_nat [symmetric])
  have shr: "0 < k \<Longrightarrow> 0 < cbs_shrink n k" for n k
  proof (induction n k rule: cbs_shrink.induct)
    case (1 n k)
    show ?case using 1 by (subst cbs_shrink.simps) auto
  qed
  have srch: "0 < k \<Longrightarrow> 0 < n \<Longrightarrow> 0 < cbs_search b m n k" for b m n k
  proof (induction b m n k rule: cbs_search.induct)
    case (1 b m n k)
    show ?case using 1 by (subst cbs_search.simps) auto
  qed
  have "0 < gcd 64 B" by simp
  moreover have "gcd 64 B \<le> 64" by (rule gcd_le1_nat) simp
  ultimately have "0 < 64 div gcd_u32 64 B" by (simp add: g div_greater_zero_iff)
  hence "0 < cbs_shrink N (64 div gcd_u32 64 B)" by (rule shr)
  hence "0 < x" using N unfolding x choose_block_size_def Let_def
    by (auto intro!: srch)
  thus "((Delta1, B, N - x, Base + x, ip', acc'), (Delta1, B, N, Base, ip, acc))
      \<in> measure (\<lambda>(Delta1, B, N, Base, ip, acc). N)"
    using N by simp
qed

declare unpack_blocks.simps [simp del]

text \<open>
  The loops over byte-aligned widths (8, 16 and 32 bits): element \<open>i\<close> is loaded
  directly; with \<open>Delta1\<close> the running sum \<open>start\<close> is updated and \<open>start + (i + 1)\<close> is
  stored.
\<close>

definition load_elem :: "nat \<Rightarrow> byte list \<Rightarrow> fault + u32" where
  "load_elem B ip =
     (if B = 32 then loadU32Fast ip
      else if B = 16 then (case loadU16Fast ip of Inl e \<Rightarrow> Inl e | Inr v \<Rightarrow> Inr (ucast v))
      else (case ip of [] \<Rightarrow> Inl ReadPastEnd | c # _ \<Rightarrow> Inr (ucast c)))"

fun unpack_aligned ::
  "bool \<Rightarrow> nat \<Rightarrow> nat \<Rightarrow> nat \<Rightarrow> byte list \<Rightarrow> u32 \<Rightarrow> fault + (u32 list \<times> byte list)" where
  "unpack_aligned Delta1 B i 0 ip start = Inr ([], ip)"
| "unpack_aligned Delta1 B i (Suc k) ip start =
     (case load_elem B ip of
        Inl e \<Rightarrow> Inl e
      | Inr v \<Rightarrow>
          if Delta1 then
            (let start' = start + v
             in case unpack_aligned Delta1 B (i + 1) k (drop (B div 8) ip) start' of
                  Inl e \<Rightarrow> Inl e
                | Inr (vs, r) \<Rightarrow> Inr ((start' + of_nat (i + 1)) # vs, r))
          else
            (case unpack_aligned Delta1 B (i + 1) k (drop (B div 8) ip) start of
               Inl e \<Rightarrow> Inl e
             | Inr (vs, r) \<Rightarrow> Inr (v # vs, r)))"

definition unpack_b32_d1_32 :: "byte list \<Rightarrow> u32 \<Rightarrow> fault + (u32 list \<times> byte list)" where
  "unpack_b32_d1_32 ip start = unpack_aligned True 32 0 32 ip start"

definition unpack_b16_d1_32 :: "byte list \<Rightarrow> u32 \<Rightarrow> fault + (u32 list \<times> byte list)" where
  "unpack_b16_d1_32 ip start = unpack_aligned True 16 0 32 ip start"

definition unpack_b8_d1_32 :: "byte list \<Rightarrow> u32 \<Rightarrow> fault + (u32 list \<times> byte list)" where
  "unpack_b8_d1_32 ip start = unpack_aligned True 8 0 32 ip start"

definition unpack_n_b ::
  "bool \<Rightarrow> nat \<Rightarrow> nat \<Rightarrow> byte list \<Rightarrow> u32 \<Rightarrow> fault + (u32 list \<times> byte list)" where
  "unpack_n_b Delta1 B N ip start =
     (if Delta1 \<and> B = 32 \<and> N = 32 then unpack_b32_d1_32 ip start
      else if Delta1 \<and> B = 16 \<and> N = 32 then unpack_b16_d1_32 ip start
      else if Delta1 \<and> B = 8 \<and> N = 32 then unpack_b8_d1_32 ip start
      else if B = 32 \<or> B = 16 \<or> B = 8 then unpack_aligned Delta1 B 0 N ip start
      else unpack_blocks Delta1 B N 0 ip start)"

text \<open>
  \<open>bitunpack_b<B>\<close>: whole blocks of 32 elements, the next block starting from the last
  value stored (\<open>start = out[31]\<close>), then the remaining elements.
\<close>

function bitunpack_b ::
  "bool \<Rightarrow> nat \<Rightarrow> byte list \<Rightarrow> nat \<Rightarrow> u32 \<Rightarrow> fault + (u32 list \<times> byte list)" where
  "bitunpack_b Delta1 B ip n start =
     (if n \<ge> 32 then
        (case unpack_n_b Delta1 B 32 ip (if Delta1 then start else 0) of
           Inl e \<Rightarrow> Inl e
         | Inr (vs, ip') \<Rightarrow>
             (case bitunpack_b Delta1 B ip' (n - 32) (if Delta1 then vs ! 31 else start) of
                Inl e \<Rightarrow> Inl e
              | Inr (ws, ip'') \<Rightarrow> Inr (vs @ ws, ip'')))
      else if n = 0 then Inr ([], ip)
      else unpack_n_b Delta1 B n ip (if Delta1 then start else 0))"
  by pat_completeness auto
termination
  by (relation "measure (\<lambda>(Delta1, B, ip, n, start). n)") auto

declare bitunpack_b.simps [simp del]

text \<open>
  \<open>Bitunpack32ScalarImpl<Delta1>::dispatch\<close>.  The function table has 33 entries and
  is indexed by \<open>b\<close> without a check.
\<close>

definition Bitunpack32ScalarImpl_dispatch ::
  "bool \<Rightarrow> byte list \<Rightarrow> nat \<Rightarrow> u32 \<Rightarrow> nat \<Rightarrow> fault + (u32 list \<times> byte list)" where
  "Bitunpack32ScalarImpl_dispatch Delta1 ip n start b =
     (if b = 0 then
        (if Delta1 then Inr (map (\<lambda>i. start + of_nat i + 1) [0..<n], ip)
         else Inr (replicate n 0, ip))
      else if b > 32 then Inl TableIndexOutOfRange
      else bitunpack_b Delta1 b ip n start)"

definition bitunpack32Scalar :: "byte list \<Rightarrow> nat \<Rightarrow> nat \<Rightarrow> fault + (u32 list \<times> byte list)" where
  "bitunpack32Scalar ip n b = Bitunpack32ScalarImpl_dispatch False ip n 0 b"

text \<open>
  Modelled from the spec: the source file that defines \<open>bitunpackd1_32Scalar\<close> is
  missing (only its declaration is there).  It is the fused delta1 variant of the
  horizontal unpack, \<open>unpack_d1_32(in, n, out, start, b)\<close>: the same decode with a
  running accumulator, which is what \<open>Bitunpack32ScalarImpl<true>::dispatch\<close> of the
  source computes.
\<close>

definition bitunpackd1_32Scalar ::
  "byte list \<Rightarrow> nat \<Rightarrow> u32 \<Rightarrow> nat \<Rightarrow> fault + (u32 list \<times> byte list)" where
  "bitunpackd1_32Scalar ip n start b = Bitunpack32ScalarImpl_dispatch True ip n start b"

section \<open>Block codec, scalar layout\<close>

definition split_exceptions :: "u32 list \<Rightarrow> nat \<Rightarrow> nat \<Rightarrow> (nat \<times> u32) list" where
  "split_exceptions xs n b =
     map (\<lambda>i. (i, drop_bit b (xs ! i)))
       (filter (\<lambda>i. xs ! i > push_bit b 1 - 1) [0..<n])"

definition build_bitmap :: "nat list \<Rightarrow> u64 list" where
  "build_bitmap positions =
     fold (\<lambda>pos bm. bm[pos div 64 := bm ! (pos div 64) OR push_bit (pos mod 64) 1]) positions
       (replicate (MAX_VALUES div 64) 0)"

text \<open>
  \<open>p4Enc32PayloadExceptions\<close>.  The scratch arrays hold \<open>MAX_VALUES\<close> entries, and
  \<open>1u << b\<close> needs \<open>b < 32\<close>.  The bitmap is stored in whole 64-bit words and the output
  pointer then advances by \<open>pad8 n\<close> bytes, so the bytes of the last word beyond that
  are overwritten by what follows.
\<close>

definition p4Enc32PayloadExceptions :: "u32 list \<Rightarrow> nat \<Rightarrow> nat \<Rightarrow> nat \<Rightarrow> fault + byte list" where
  "p4Enc32PayloadExceptions xs n b bx =
     (if b \<ge> 32 then Inl ShiftOutOfRange
      else if n > MAX_VALUES then Inl WritePastEnd
      else
        (let base_mask = (push_bit b 1 - 1 :: u32);
             base = map (\<lambda>v. v AND base_mask) (take n xs);
             ex = split_exceptions xs n b;
             exception_positions = map fst ex;
             exceptions = map snd ex;
             exception_count = length ex
         in if bx \<le> MAX_BITS then
              (let bitmap = build_bitmap exception_positions;
                   bitmap_words = (n + 63) div 64;
                   bitmap_bytes = take (pad8 n) (concat (map storeU64Fast (take bitmap_words bitmap)))
               in case bitpack32Scalar exceptions exception_count bx of
                    Inl e \<Rightarrow> Inl e
                  | Inr patch \<Rightarrow>
                      (case bitpack32Scalar base n b of
                         Inl e \<Rightarrow> Inl e
                       | Inr packed \<Rightarrow> Inr (bitmap_bytes @ patch @ packed)))
            else
              (case bitpack32Scalar base n b of
                 Inl e \<Rightarrow> Inl e
               | Inr packed \<Rightarrow>
                   Inr ([of_nat exception_count] @ packed @
                        vbEnc32 exceptions exception_count @
                        map of_nat exception_positions))))"

definition p4Enc32Payload :: "u32 list \<Rightarrow> nat \<Rightarrow> nat \<Rightarrow> nat \<Rightarrow> fault + byte list" where
  "p4Enc32Payload xs n b bx =
     (if b = 0 \<and> bx = 0 then Inr []
      else if bx = 0 then bitpack32Scalar xs n b
      else if bx = MAX_BITS + 2 then
        (if b = 32 then Inr (storeU32Fast (xs ! 0))
         else if b > 32 then Inl ShiftOutOfRange
         else
           (let masked_value = xs ! 0 AND (push_bit b 1 - 1);
                bytes_needed = (b + 7) div 8
            in Inr (map (\<lambda>i. ucast (drop_bit (i * 8) masked_value)) [0..<bytes_needed])))
      else p4Enc32PayloadExceptions xs n b bx)"

definition p4Enc32 :: "u32 list \<Rightarrow> nat \<Rightarrow> fault + byte list" where
  "p4Enc32 xs n =
     (let r = p4Bits32 xs n;
          base_bits = fst r;
          exception_bits = snd r
      in case p4Enc32Payload xs n base_bits exception_bits of
           Inl e \<Rightarrow> Inl e
         | Inr payload \<Rightarrow> Inr (writeHeader base_bits exception_bits @ payload))"


subsection \<open>Decoder\<close>

definition popcountll :: "u64 \<Rightarrow> nat" where
  "popcountll w = length (filter (bit w) [0..<64])"

definition ctzll :: "u64 \<Rightarrow> nat" where
  "ctzll w = length (takeWhile (\<lambda>i. \<not> bit w i) [0..<64])"

definition load_bitmap_word :: "byte list \<Rightarrow> nat \<Rightarrow> nat \<Rightarrow> nat \<Rightarrow> fault + u64" where
  "load_bitmap_word ip n bitmap_words i =
     (case loadU64Fast (drop (i * 8) ip) of
        Inl e \<Rightarrow> Inl e
      | Inr word \<Rightarrow>
          Inr (if i = bitmap_words - 1 \<and> n AND 0x3F \<noteq> 0
               then word AND (push_bit (n AND 0x3F) 1 - 1)
               else word))"

fun load_bitmap :: "byte list \<Rightarrow> nat \<Rightarrow> nat \<Rightarrow> nat list \<Rightarrow> fault + u64 list" where
  "load_bitmap ip n bitmap_words [] = Inr []"
| "load_bitmap ip n bitmap_words (i # js) =
     (case load_bitmap_word ip n bitmap_words i of
        Inl e \<Rightarrow> Inl e
      | Inr w \<Rightarrow>
          (case load_bitmap ip n bitmap_words js of
             Inl e \<Rightarrow> Inl e
           | Inr ws \<Rightarrow> Inr (w # ws)))"

text \<open>
  The patch loop over one bitmap word: the lowest set bit gives the position, the next
  exception value is ORed in, the bit is cleared.  The state is the output array and
  the exception index.
\<close>

function merge_word ::
  "u64 \<Rightarrow> nat \<Rightarrow> nat \<Rightarrow> u32 list \<Rightarrow> u32 list \<times> nat \<Rightarrow> fault + (u32 list \<times> nat)" where
  "merge_word word word_index b exception_values st =
     (if word = 0 then Inr st
      else
        (let out = fst st;
             exception_index = snd st;
             bit_position = ctzll word;
             value_index = word_index * 64 + bit_position
         in if b \<ge> 32 then Inl ShiftOutOfRange
            else if value_index \<ge> length out then Inl WritePastEnd
            else if exception_index \<ge> length exception_values then Inl ReadPastEnd
            else merge_word (word AND (word - 1)) word_index b exception_values
                   (out[value_index := out ! value_index
                          OR push_bit b (exception_values ! exception_index)],
                    exception_index + 1)))"
  by pat_completeness auto
termination
proof -
  have key: "unat (word AND (word - 1)) < unat word" if w: "word \<noteq> 0" for word :: u64
  proof -
    have "word AND (word - 1) \<le> word - 1" by (rule word_and_le1)
    moreover have "word - 1 < word"
      using w unat_gt_0 [of word] by (simp add: word_less_nat_alt unat_minus_one)
    ultimately show ?thesis
      by (simp add: word_less_nat_alt word_le_nat_alt)
  qed
  show ?thesis
    by (relation "measure (\<lambda>(word, word_index, b, exception_values, st). unat word)")
      (auto simp add: key)
qed

declare merge_word.simps [simp del]

fun merge_words ::
  "u64 list \<Rightarrow> nat \<Rightarrow> nat \<Rightarrow> u32 list \<Rightarrow> u32 list \<times> nat \<Rightarrow> fault + (u32 list \<times> nat)" where
  "merge_words [] word_index b exception_values st = Inr st"
| "merge_words (word # ws) word_index b exception_values st =
     (case merge_word word word_index b exception_values st of
        Inl e \<Rightarrow> Inl e
      | Inr st' \<Rightarrow> merge_words ws (word_index + 1) b exception_values st')"

text \<open>The delta1 pass \<open>out[i] = (start += out[i]) + (i + 1)\<close>, from index \<open>i\<close> on.\<close>

fun delta1_from :: "nat \<Rightarrow> u32 \<Rightarrow> u32 list \<Rightarrow> u32 list" where
  "delta1_from i start [] = []"
| "delta1_from i start (v # vs) =
     (let start' = start + v in (start' + of_nat (i + 1)) # delta1_from (i + 1) start' vs)"

definition p4D1DecPayloadExceptions ::
  "byte list \<Rightarrow> nat \<Rightarrow> u32 \<Rightarrow> nat \<Rightarrow> nat \<Rightarrow> fault + (u32 list \<times> byte list)" where
  "p4D1DecPayloadExceptions ip n start b bx =
     (let bitmap_words = (n + 63) div 64
      in if bitmap_words > MAX_VALUES div 64 then Inl WritePastEnd
         else
           (case load_bitmap ip n bitmap_words [0..<bitmap_words] of
              Inl e \<Rightarrow> Inl e
            | Inr bitmap \<Rightarrow>
                (let exception_count = sum_list (map popcountll bitmap);
                     input_ptr = drop (pad8 n) ip
                 in case bitunpack32Scalar input_ptr exception_count bx of
                      Inl e \<Rightarrow> Inl e
                    | Inr (exception_values, input_ptr1) \<Rightarrow>
                        (case bitunpack32Scalar input_ptr1 n b of
                           Inl e \<Rightarrow> Inl e
                         | Inr (out, input_ptr2) \<Rightarrow>
                             (case merge_words bitmap 0 b exception_values (out, 0) of
                                Inl e \<Rightarrow> Inl e
                              | Inr (out', k) \<Rightarrow>
                                  Inr (delta1_from 0 start out', input_ptr2))))))"

text \<open>The patch loop of the variable-byte form: one position byte per exception.\<close>

fun merge_positions :: "byte list \<Rightarrow> u32 list \<Rightarrow> nat \<Rightarrow> u32 list \<Rightarrow> fault + u32 list" where
  "merge_positions ip [] b out = Inr out"
| "merge_positions ip (e # es) b out =
     (case ip of
        [] \<Rightarrow> Inl ReadPastEnd
      | p # ip' \<Rightarrow>
          (let position = unat p
           in if b \<ge> 32 then Inl ShiftOutOfRange
              else if position \<ge> length out then Inl WritePastEnd
              else merge_positions ip' es b (out[position := out ! position OR push_bit b e])))"

definition p4D1Dec32 :: "byte list \<Rightarrow> nat \<Rightarrow> u32 \<Rightarrow> fault + (u32 list \<times> byte list)" where
  "p4D1Dec32 ip n start =
     (case ip of
        [] \<Rightarrow> Inl ReadPastEnd
      | h # input_ptr \<Rightarrow>
          (let base_bits = unat h
           in if base_bits AND 0xC0 = 0 then
                bitunpackd1_32Scalar input_ptr n start base_bits
              else if base_bits AND 0x40 = 0 then
                (case input_ptr of
                   [] \<Rightarrow> Inl ReadPastEnd
                 | x # input_ptr1 \<Rightarrow>
                     (let exception_bits = unat x;
                          base_bits1 = base_bits AND 0x7F
                      in if exception_bits = 0 then
                           bitunpackd1_32Scalar input_ptr1 n start base_bits1
                         else
                           p4D1DecPayloadExceptions input_ptr1 n start base_bits1 exception_bits))
              else if base_bits AND 0xC0 = 0xC0 then
                (let base_bits1 = base_bits AND 0x3F;
                     bytes_stored = (base_bits1 + 7) div 8
                 in case
                      (if bytes_stored = 1 then
                         (case input_ptr of [] \<Rightarrow> Inl ReadPastEnd | c # _ \<Rightarrow> Inr (ucast c))
                       else if bytes_stored = 2 then
                         (case loadU16Fast input_ptr of Inl e \<Rightarrow> Inl e | Inr v \<Rightarrow> Inr (ucast v))
                       else if bytes_stored = 3 then loadU24 input_ptr
                       else if bytes_stored = 4 then loadU32Fast input_ptr
                       else Inl UnreachableReached)
                    of
                      Inl e \<Rightarrow> Inl e
                    | Inr loaded \<Rightarrow>
                        (let constant_value =
                               loaded AND ucast (push_bit base_bits1 (1 :: u64) - 1)
                         in Inr (delta1_from 0 start (replicate n constant_value),
                                 drop bytes_stored input_ptr)))
              else
                (let base_bits1 = base_bits AND 0x3F
                 in case input_ptr of
                      [] \<Rightarrow> Inl ReadPastEnd
                    | x # input_ptr1 \<Rightarrow>
                        (let exception_count = unat x
                         in case bitunpack32Scalar input_ptr1 n base_bits1 of
                              Inl e \<Rightarrow> Inl e
                            | Inr (out, input_ptr2) \<Rightarrow>
                                (case vbDec32 input_ptr2 exception_count of
                                   Inl e \<Rightarrow> Inl e
                                 | Inr (exception_values, input_ptr3) \<Rightarrow>
                                     (case merge_positions input_ptr3 exception_values base_bits1 out of
                                        Inl e \<Rightarrow> Inl e
                                      | Inr out' \<Rightarrow>
                                          Inr (delta1_from 0 start out',
                                               drop exception_count input_ptr3)))))))"

text \<open>
  \<open>spec_failure r\<close>: the result \<open>r\<close> is one of the two failures the specification
  names.
\<close>

definition spec_failure :: "fault + 'a \<Rightarrow> bool" where
  "spec_failure r = (r = Inl CorruptHeader \<or> r = Inl Truncated)"

text \<open>
  The state of the candidate loop on entry to the iteration at \<open>base_bits\<close>: the loop
  starts at \<open>max_bits - 1\<close> with the initial state, and every iteration above
  \<open>base_bits\<close> has made its choice and updated the counters.
\<close>

function p4Bits32_state_at :: "nat \<Rightarrow> nat \<Rightarrow> nat list \<Rightarrow> nat \<Rightarrow> p4bits_state" where
  "p4Bits32_state_at n max_bits bit_width_count base_bits =
     (if max_bits \<le> Suc base_bits then p4Bits32_init n max_bits bit_width_count
      else p4Bits32_advance bit_width_count (Suc base_bits)
             (p4Bits32_choose n max_bits (Suc base_bits)
                (p4Bits32_state_at n max_bits bit_width_count (Suc base_bits))))"
  by pat_completeness auto
termination
  by (relation "measure (\<lambda>(n, max_bits, bit_width_count, base_bits). max_bits - base_bits)") auto

declare p4Bits32_state_at.simps [simp del]

text \<open>
  The cost \<open>vbyte_size\<close> that \<open>p4Bits32\<close> computes for the variable-byte strategy in the
  iteration at \<open>base_bits\<close>, for the block \<open>in[0..n)\<close>.
\<close>

definition p4Bits32_vbyte_cost :: "u32 list \<Rightarrow> nat \<Rightarrow> nat \<Rightarrow> nat" where
  "p4Bits32_vbyte_cost xs n base_bits =
     (let bitwise_or = fold (\<lambda>v acc. acc OR v) (take n xs) 0;
          max_bits = bitWidth32 bitwise_or;
          bit_width_count = p4Bits32_histogram (take n xs)
      in vbyte_size_at n base_bits
           (p4Bits32_state_at n max_bits bit_width_count base_bits))"

text \<open>
  What the accumulators of \<open>p4Bits32\<close> charge for the variable-byte encoding of one
  exception whose bit width is \<open>d\<close> bits above the base width: the four accumulator
  entries filled by \<open>update_vbyte_accumulator\<close> add 1, 2, 3 and 4 bytes once the
  difference passes 7, 15, 19 and 25 bits.
\<close>

definition vb_estimate :: "nat \<Rightarrow> nat" where
  "vb_estimate d =
     (if d \<le> 7 then 1 else if d \<le> 15 then 2 else if d \<le> 19 then 4
      else if d \<le> 25 then 7 else 11)"

text \<open>The number of bytes the variable-byte codec produces for one value.\<close>

definition vbyte_len :: "u32 \<Rightarrow> nat" where
  "vbyte_len v = length (vbPut32 v)"

text \<open>
  What \<open>update_vbyte_accumulator\<close> adds to entry \<open>t\<close> of the accumulator array for one
  value of bit width \<open>w\<close>.
\<close>

definition vb_slots :: "nat \<Rightarrow> nat \<Rightarrow> nat" where
  "vb_slots w t =
     (if w + 41 = t then 1 else 0) + (if w + 33 = t then 2 else 0) +
     (if w + 29 = t then 3 else 0) + (if w + 23 = t then 4 else 0)"

section \<open>Properties\<close>

lemma length_le_bytes [simp]: "length (le_bytes k v) = k"
  by (induction k arbitrary: v) auto

lemma le_word_le_bytes:
  "(le_word (le_bytes k v) :: 'a::len word) = take_bit (8 * k) (v :: 'a word)"
proof (induction k arbitrary: v)
  case 0
  then show ?case by simp
next
  case (Suc k)
  show ?case
    apply (simp add: Suc)
    apply (rule bit_eqI)
    apply (auto simp add: bit_simps)
    done
qed

lemma ff_mask: "(0xFF :: u32) = mask 8"
  by (simp add: mask_eq_exp_minus_1)

lemma ucast_and_ff: "(ucast ((w::u32) AND 0xFF) :: byte) = ucast w"
  unfolding ff_mask by (rule bit_eqI) (auto simp add: bit_simps)

lemma ucast_byte_id: "unat (w::u32) < 256 \<Longrightarrow> (ucast (ucast w :: byte) :: u32) = w"
proof -
  assume a: "unat w < 256"
  have "ucast (ucast w :: byte) = take_bit 8 w"
    by (rule bit_eqI) (auto simp add: bit_simps)
  moreover have "take_bit 8 w = w"
  proof (rule word_unat_eq_iff [THEN iffD2])
    have "unat (take_bit 8 w) = take_bit 8 (unat w)" by (rule unsigned_take_bit_eq)
    also have "\<dots> = unat w" using a by (intro take_bit_nat_eq_self) simp
    finally show "unat (take_bit 8 w) = unat w" .
  qed
  ultimately show ?thesis by simp
qed

lemma split_byte: "push_bit 8 (drop_bit 8 (w::u32)) + ucast (ucast w :: byte) = w"
proof -
  have "push_bit 8 (drop_bit 8 w) + ucast (ucast w :: byte) = push_bit 8 (drop_bit 8 w) OR ucast (ucast w :: byte)"
    by (rule disjunctive_add) (auto simp add: bit_simps)
  also have "\<dots> = w"
    by (rule bit_eqI) (auto simp add: bit_simps)
  finally show ?thesis .
qed


lemma unat_ucast_byte: "unat (w::u32) < 256 \<Longrightarrow> unat (ucast w :: byte) = unat w"
proof -
  assume a: "unat w < 256"
  have "unat (ucast w :: byte) = take_bit 8 (unat w)" by (simp add: unsigned_ucast_eq)
  also have "\<dots> = unat w" using a by (intro take_bit_nat_eq_self) simp
  finally show ?thesis .
qed

lemma split_u16: "push_bit 16 (drop_bit 16 (w::u32)) + ucast (ucast w :: u16) = w"
proof -
  have "push_bit 16 (drop_bit 16 w) + ucast (ucast w :: u16) = push_bit 16 (drop_bit 16 w) OR ucast (ucast w :: u16)"
    by (rule disjunctive_add) (auto simp add: bit_simps)
  also have "\<dots> = w"
    by (rule bit_eqI) (auto simp add: bit_simps)
  finally show ?thesis .
qed

lemma le_word_two: "(le_word [ucast (w::u32), ucast (drop_bit 8 w AND 0xFF)] :: u16) = ucast w"
  unfolding ff_mask by (rule bit_eqI) (auto simp add: bit_simps)

lemma le_word_three: "(le_word (ucast (w::u32) # ucast (drop_bit 8 w) # ucast (drop_bit 16 w) # c # []) :: u32) AND 0xFFFFFF = take_bit 24 w"
proof -
  have m: "(0xFFFFFF :: u32) = mask 24" by (simp add: mask_eq_exp_minus_1)
  show ?thesis unfolding m by (rule bit_eqI) (auto simp add: bit_simps)
qed

lemma take_bit_u32_self: "unat (w::u32) < 2 ^ k \<Longrightarrow> take_bit k w = w"
proof (rule word_unat_eq_iff [THEN iffD2])
  assume a: "unat w < 2 ^ k"
  have "unat (take_bit k w) = take_bit k (unat w)" by (rule unsigned_take_bit_eq)
  also have "\<dots> = unat w" using a by (intro take_bit_nat_eq_self)
  finally show "unat (take_bit k w) = unat w" .
qed

lemma vb_class1:
  assumes "v < (156::u32)"
  shows "vbPut32 v = [ucast v]" "(ucast v :: byte) \<le> 0x9B"
    "vbGet32 (vbPut32 v @ rest) = Inr (v, rest)"
proof -
  have u: "unat v < 156" using assms by (simp add: word_less_nat_alt)
  show p: "vbPut32 v = [ucast v]" using assms by (simp add: vbPut32_def vbyte_consts)
  have ub: "unat (ucast v :: byte) = unat v" using u by (intro unat_ucast_byte) simp
  show "(ucast v :: byte) \<le> 0x9B" using u ub by (simp add: word_le_nat_alt)
  have bk: "(ucast (ucast v :: byte) :: u32) = v" using u by (intro ucast_byte_id) simp
  show "vbGet32 (vbPut32 v @ rest) = Inr (v, rest)"
    using assms by (simp add: p vbGet32_def vbyte_consts bk)
qed

lemma vb_class2:
  assumes "156 \<le> v" "v < (16540::u32)"
  shows "vbPut32 v = [ucast (0x9C + drop_bit 8 (v - 156)), ucast (v - 156)]"
    "(0x9C :: byte) \<le> ucast (0x9C + drop_bit 8 (v - 156))"
    "(ucast (0x9C + drop_bit 8 (v - 156)) :: byte) \<le> 0xDB"
    "vbGet32 (vbPut32 v @ rest) = Inr (v, rest)"
proof -
  define d where "d = v - 156"
  define m where "m = 0x9C + drop_bit 8 d"
  have ud: "unat d = unat v - 156" unfolding d_def using assms(1) by (simp add: unat_sub)
  have "unat v < 16540" using assms(2) by (simp add: word_less_nat_alt)
  hence dlt: "unat d < 16384" using ud by simp
  have um: "unat m = 156 + unat d div 256"
    unfolding m_def using dlt by (simp add: unat_word_ariths unat_drop_bit_eq drop_bit_eq_div)
  hence mlt: "unat m < 220" using dlt by simp
  hence ub: "unat (ucast m :: byte) = unat m" by (intro unat_ucast_byte) simp
  have bk: "(ucast (ucast m :: byte) :: u32) = m" using mlt by (intro ucast_byte_id) simp
  have nlt: "\<not> v < 156" using assms(1) by simp
  show p: "vbPut32 v = [ucast (0x9C + drop_bit 8 (v - 156)), ucast (v - 156)]"
    using assms nlt by (simp add: vbPut32_def vbyte_consts Let_def ucast_and_ff)
  show "(0x9C :: byte) \<le> ucast (0x9C + drop_bit 8 (v - 156))"
    using ub um by (simp add: word_le_nat_alt m_def d_def)
  show "(ucast (0x9C + drop_bit 8 (v - 156)) :: byte) \<le> 0xDB"
    using ub mlt by (simp add: word_le_nat_alt m_def d_def)
  have m1: "\<not> m < 0x9C" using um by (simp add: word_less_nat_alt)
  have m2: "m < 0xDC" using mlt by (simp add: word_less_nat_alt)
  have "push_bit 8 (m - 0x9C) + ucast (ucast d :: byte) + 156 = v"
    by (simp add: m_def split_byte d_def)
  thus "vbGet32 (vbPut32 v @ rest) = Inr (v, rest)"
    using m1 m2 by (simp add: p vbGet32_def vbyte_consts Let_def bk
        d_def [symmetric] m_def [symmetric])
qed

lemma vb_class3:
  assumes "16540 \<le> v" "v < (2113692::u32)"
  shows "vbPut32 v = [ucast (0xDC + drop_bit 16 (v - 16540)), ucast (v - 16540),
           ucast (drop_bit 8 (v - 16540))]"
    "(0xDC :: byte) \<le> ucast (0xDC + drop_bit 16 (v - 16540))"
    "(ucast (0xDC + drop_bit 16 (v - 16540)) :: byte) \<le> 0xFB"
    "vbGet32 (vbPut32 v @ rest) = Inr (v, rest)"
proof -
  define d where "d = v - 16540"
  define m where "m = 0xDC + drop_bit 16 d"
  have ud: "unat d = unat v - 16540" unfolding d_def using assms(1) by (simp add: unat_sub)
  have "unat v < 2113692" using assms(2) by (simp add: word_less_nat_alt)
  hence dlt: "unat d < 2097152" using ud by simp
  have um: "unat m = 220 + unat d div 65536"
    unfolding m_def using dlt by (simp add: unat_word_ariths unat_drop_bit_eq drop_bit_eq_div)
  hence mlt: "unat m < 252" using dlt by simp
  hence ub: "unat (ucast m :: byte) = unat m" by (intro unat_ucast_byte) simp
  have bk: "(ucast (ucast m :: byte) :: u32) = m" using mlt by (intro ucast_byte_id) simp
  have n1: "\<not> v < 156" "\<not> v < 16540" using assms(1) by (simp_all add: word_less_nat_alt word_le_nat_alt)
  have b3: "(ucast (drop_bit 8 d AND 0xFF) :: byte) = ucast (drop_bit 8 d)"
    by (rule ucast_and_ff)
  show p: "vbPut32 v = [ucast (0xDC + drop_bit 16 (v - 16540)), ucast (v - 16540),
           ucast (drop_bit 8 (v - 16540))]"
    using assms n1 by (simp add: vbPut32_def vbyte_consts Let_def ucast_and_ff)
  show "(0xDC :: byte) \<le> ucast (0xDC + drop_bit 16 (v - 16540))"
    using ub um by (simp add: word_le_nat_alt m_def d_def)
  show "(ucast (0xDC + drop_bit 16 (v - 16540)) :: byte) \<le> 0xFB"
    using ub mlt by (simp add: word_le_nat_alt m_def d_def)
  have m1: "\<not> m < 0x9C" "\<not> m < 0xDC" using um by (simp_all add: word_less_nat_alt)
  have m2: "m < 0xFC" using mlt by (simp add: word_less_nat_alt)
  have lw: "(le_word [ucast d, ucast (drop_bit 8 d)] :: u16) = ucast d"
    by (rule bit_eqI) (auto simp add: bit_simps)
  have "ucast (ucast d :: u16) + push_bit 16 (m - 0xDC) + 16540 = v"
    using split_u16 [of d] by (simp add: m_def d_def add.commute)
  thus "vbGet32 (vbPut32 v @ rest) = Inr (v, rest)"
    using m1 m2 by (simp add: p vbGet32_def vbyte_consts Let_def bk loadU16Fast_def
        d_def [symmetric] m_def [symmetric] lw del: le_word.simps)
qed

lemma vb_class4:
  assumes "2113692 \<le> v" "v \<le> (0xFFFFFF::u32)"
  shows "vbPut32 v = [0xFC, ucast v, ucast (drop_bit 8 v), ucast (drop_bit 16 v)]"
    "rest \<noteq> [] \<Longrightarrow> vbGet32 (vbPut32 v @ rest) = Inr (v, rest)"
proof -
  have n1: "\<not> v < 156" "\<not> v < 16540" "\<not> v < 2113692"
    using assms(1) by (simp_all add: word_less_nat_alt word_le_nat_alt)
  show p: "vbPut32 v = [0xFC, ucast v, ucast (drop_bit 8 v), ucast (drop_bit 16 v)]"
    using assms n1 by (simp add: vbPut32_def vbyte_consts)
  assume "rest \<noteq> []"
  then obtain c cs where r: "rest = c # cs" by (cases rest) auto
  have "unat v < 2 ^ 24" using assms(2) by (simp add: word_le_nat_alt)
  hence "take_bit 24 v = v" by (rule take_bit_u32_self)
  thus "vbGet32 (vbPut32 v @ rest) = Inr (v, rest)"
    by (simp add: p r vbGet32_def vbyte_consts loadU32Fast_def le_word_three del: le_word.simps)
qed

lemma vb_class5:
  assumes "\<not> v \<le> (0xFFFFFF::u32)"
  shows "vbPut32 v = 0xFD # le_bytes 4 v"
    "vbGet32 (vbPut32 v @ rest) = Inr (v, rest)"
proof -
  have n1: "\<not> v < 156" "\<not> v < 16540" "\<not> v < 2113692"
    using assms(1) by (simp_all add: word_less_nat_alt word_le_nat_alt)
  show p: "vbPut32 v = 0xFD # le_bytes 4 v"
    using assms n1 by (simp add: vbPut32_def vbyte_consts storeU32Fast_def)
  have "(le_word (le_bytes 4 v) :: u32) = v"
    by (simp add: le_word_le_bytes take_bit_word_eq_self del: le_bytes.simps le_word.simps)
  thus "vbGet32 (vbPut32 v @ rest) = Inr (v, rest)"
    by (simp add: p vbGet32_def vbyte_consts loadU32Fast_def del: le_bytes.simps le_word.simps)
qed


lemma vbGet32Inline_eq: "vbGet32Inline ip = vbGet32 ip"
  by (simp add: vbGet32Inline_def vbGet32_def Let_def add.assoc split: list.splits)

lemma u32_cases:
  fixes v :: u32
  obtains (c1) "v < 156"
  | (c2) "156 \<le> v" "v < 16540"
  | (c3) "16540 \<le> v" "v < 2113692"
  | (c4) "2113692 \<le> v" "v \<le> 0xFFFFFF"
  | (c5) "\<not> v \<le> 0xFFFFFF"
  by (metis not_le)

lemma le_bytes_3: "le_bytes 3 (v::u32) = [ucast v, ucast (drop_bit 8 v), ucast (drop_bit 16 v)]"
  by (simp add: numeral_3_eq_3)

lemma le_bytes_4:
  "le_bytes 4 (v::u32) = [ucast v, ucast (drop_bit 8 v), ucast (drop_bit 16 v), ucast (drop_bit 24 v)]"
  by (simp add: eval_nat_numeral)

lemma vb_put_get_all:
  fixes v :: u32
  shows
    "((length (vbPut32 v) = 1 \<and> hd (vbPut32 v) \<le> 0x9B) \<longleftrightarrow> v < 156) \<and>
     ((length (vbPut32 v) = 2 \<and> 0x9C \<le> hd (vbPut32 v) \<and> hd (vbPut32 v) \<le> 0xDB)
        \<longleftrightarrow> (156 \<le> v \<and> v < 16540)) \<and>
     ((length (vbPut32 v) = 3 \<and> 0xDC \<le> hd (vbPut32 v) \<and> hd (vbPut32 v) \<le> 0xFB)
        \<longleftrightarrow> (16540 \<le> v \<and> v < 2113692)) \<and>
     (vbPut32 v = 0xFC # le_bytes 3 v \<longleftrightarrow> (2113692 \<le> v \<and> v < 2 ^ 24)) \<and>
     (vbPut32 v = 0xFD # le_bytes 4 v \<longleftrightarrow> 2 ^ 24 \<le> v) \<and>
     (v < 156 \<longrightarrow> vbPut32 v = [ucast v]) \<and>
     (156 \<le> v \<and> v < 16540 \<longrightarrow>
        vbPut32 v = [ucast (0x9C + drop_bit 8 (v - 156)), ucast (v - 156)]) \<and>
     (16540 \<le> v \<and> v < 2113692 \<longrightarrow>
        vbPut32 v = [ucast (0xDC + drop_bit 16 (v - 16540)), ucast (v - 16540),
                     ucast (drop_bit 8 (v - 16540))]) \<and>
     (rest \<noteq> [] \<longrightarrow> vbGet32 (vbPut32 v @ rest) = Inr (v, rest))"
proof (cases v rule: u32_cases)
  case c1
  have u: "unat v < 156" using c1 by (simp add: word_less_nat_alt)
  show ?thesis
    using vb_class1(1,2) [OF c1] vb_class1(3) [OF c1, of rest] u
    by (simp add: word_less_nat_alt word_le_nat_alt le_bytes_3 le_bytes_4)
next
  case c2
  have u: "156 \<le> unat v" "unat v < 16540"
    using c2 by (simp_all add: word_less_nat_alt word_le_nat_alt)
  show ?thesis
    using vb_class2(1,2,3) [OF c2] vb_class2(4) [OF c2, of rest] u
    by (simp add: word_less_nat_alt word_le_nat_alt le_bytes_3 le_bytes_4)
next
  case c3
  have u: "16540 \<le> unat v" "unat v < 2113692"
    using c3 by (simp_all add: word_less_nat_alt word_le_nat_alt)
  show ?thesis
    using vb_class3(1,2,3) [OF c3] vb_class3(4) [OF c3, of rest] u
    by (simp add: word_less_nat_alt word_le_nat_alt le_bytes_3 le_bytes_4)
next
  case c4
  have u: "2113692 \<le> unat v" "unat v < 16777216"
    using c4 by (simp_all add: word_less_nat_alt word_le_nat_alt)
  have "rest \<noteq> [] \<longrightarrow> vbGet32 (vbPut32 v @ rest) = Inr (v, rest)"
    using vb_class4(2) [OF c4] by blast
  thus ?thesis
    using vb_class4(1) [OF c4(1) c4(2)] u
    by (simp add: word_less_nat_alt word_le_nat_alt le_bytes_3 le_bytes_4)
next
  case c5
  have u: "16777216 \<le> unat v"
    using c5 by (simp_all add: word_less_nat_alt word_le_nat_alt)
  show ?thesis
    using vb_class5(1) [OF c5] vb_class5(2) [OF c5, of rest] u
    by (simp add: word_less_nat_alt word_le_nat_alt le_bytes_3 le_bytes_4)
qed




lemma copyU32ArrayFromLe_ToLe:
  "copyU32ArrayFromLe (concat (map storeU32Fast xs) @ rest) (length xs) = Inr xs"
proof (induction xs)
  case Nil
  show ?case by simp
next
  case (Cons x xs)
  have l: "(le_word (le_bytes 4 x) :: u32) = x"
    by (simp add: le_word_le_bytes take_bit_word_eq_self del: le_bytes.simps le_word.simps)
  show ?case
    using Cons
    by (simp add: storeU32Fast_def loadU32Fast_def l del: le_bytes.simps le_word.simps)
qed

lemma length_copyU32ArrayToLe: "length (concat (map storeU32Fast xs)) = 4 * length xs"
  by (induction xs) (simp_all add: storeU32Fast_def del: le_bytes.simps)

lemma vbPut32_nonempty: "vbPut32 v \<noteq> []"
  using vb_put_get_all [of v "[]"]
  by (cases v rule: u32_cases) (auto simp add: word_less_nat_alt word_le_nat_alt)

lemma vbPut32_hd: "hd (vbPut32 v) \<noteq> 0xFF"
proof (cases v rule: u32_cases)
  case c1
  thus ?thesis using vb_class1(1,2) [OF c1] by (auto simp add: word_le_nat_alt)
next
  case c2
  thus ?thesis using vb_class2(1,3) [OF c2] by (auto simp add: word_le_nat_alt)
next
  case c3
  thus ?thesis using vb_class3(1,3) [OF c3] by (auto simp add: word_le_nat_alt)
next
  case c4
  thus ?thesis using vb_class4(1) [OF c4] by simp
next
  case c5
  thus ?thesis using vb_class5(1) [OF c5] by simp
qed

lemma vbGet32_vbPut32:
  "rest \<noteq> [] \<Longrightarrow> vbGet32 (vbPut32 v @ rest) = Inr (v, rest)"
  using vb_put_get_all [of v rest] by simp

lemma vbDec32_loop_vbPut32:
  "rest \<noteq> [] \<Longrightarrow>
   vbDec32_loop (length xs) (concat (map vbPut32 xs) @ rest) = Inr (xs, rest)"
proof (induction xs)
  case Nil
  show ?case by simp
next
  case (Cons x xs)
  have "concat (map vbPut32 xs) @ rest \<noteq> []" using Cons.prems by simp
  hence "vbGet32 (vbPut32 x @ concat (map vbPut32 xs) @ rest)
       = Inr (x, concat (map vbPut32 xs) @ rest)"
    by (rule vbGet32_vbPut32)
  thus ?case using Cons by (simp add: vbGet32Inline_eq)
qed


lemma vb_enc_dec_all:
  assumes "length xs = n"
  shows
    "((vbEnc32 xs n = 0xFF # concat (map (le_bytes 4) xs) \<and> length (vbEnc32 xs n) = 1 + 4 * n)
        \<longleftrightarrow> int (length (concat (map vbPut32 xs))) > 4 * int n - 32) \<and>
     (\<not> length (concat (map vbPut32 xs)) + 32 > 4 * n \<longrightarrow>
        vbEnc32 xs n = concat (map vbPut32 xs)) \<and>
     (rest \<noteq> [] \<longrightarrow> vbDec32 (vbEnc32 xs n @ rest) n = Inr (xs, rest)) \<and>
     vbDec32 (0xFF # ip) n =
        (case copyU32ArrayFromLe ip n of Inl e \<Rightarrow> Inl e | Inr vs \<Rightarrow> Inr (vs, drop (n * 4) ip)) \<and>
     (c \<noteq> 0xFF \<longrightarrow> vbDec32 (c # ip) n = vbDec32_loop n (c # ip))"
proof -
  let ?op = "concat (map vbPut32 xs)"
  let ?raw = "concat (map (le_bytes 4) xs)"
  have st: "map storeU32Fast xs = map (le_bytes 4) xs"
    by (simp add: storeU32Fast_def del: le_bytes.simps)
  have lraw: "length ?raw = 4 * n"
    using length_copyU32ArrayToLe [of xs] assms by (simp add: st del: le_bytes.simps)
  have esc: "length ?op + 32 > 4 * n \<Longrightarrow> vbEnc32 xs n = 0xFF # ?raw"
    using assms by (simp add: vbEnc32_def copyU32ArrayToLe_def st vbyte_consts mult.commute
        del: le_bytes.simps)
  have nesc: "\<not> length ?op + 32 > 4 * n \<Longrightarrow> vbEnc32 xs n = ?op"
    using assms by (simp add: vbEnc32_def mult.commute)
  have a: "(vbEnc32 xs n = 0xFF # ?raw \<and> length (vbEnc32 xs n) = 1 + 4 * n)
        \<longleftrightarrow> int (length ?op) > 4 * int n - 32"
  proof (cases "length ?op + 32 > 4 * n")
    case True
    thus ?thesis using esc lraw by simp
  next
    case False
    thus ?thesis using nesc by auto
  qed
  have dec: "vbDec32 (vbEnc32 xs n @ rest) n = Inr (xs, rest)" if r: "rest \<noteq> []"
  proof (cases "length ?op + 32 > 4 * n")
    case True
    have "copyU32ArrayFromLe (concat (map storeU32Fast xs) @ rest) (length xs) = Inr xs"
      by (rule copyU32ArrayFromLe_ToLe)
    thus ?thesis
      using esc [OF True] lraw assms
      by (simp add: vbDec32_def vbyte_consts st mult.commute del: le_bytes.simps)
  next
    case False
    hence "xs \<noteq> []" using assms by auto
    then obtain x ys where xs: "xs = x # ys" by (cases xs) auto
    obtain m ms where p: "vbPut32 x = m # ms" using vbPut32_nonempty [of x] by (cases "vbPut32 x") auto
    have m: "m \<noteq> 0xFF" using vbPut32_hd [of x] p by simp
    have opm: "?op @ rest = m # (ms @ concat (map vbPut32 ys) @ rest)"
      by (simp add: xs p)
    have L: "vbDec32_loop n (?op @ rest) = Inr (xs, rest)"
      using vbDec32_loop_vbPut32 [OF r, of xs] assms by simp
    have "vbDec32 (?op @ rest) n = vbDec32_loop n (?op @ rest)"
      unfolding opm using m by (simp add: vbDec32_def vbyte_consts)
    thus ?thesis
      using nesc [OF False] L by simp
  qed
  show ?thesis
    using a nesc dec by (simp add: vbDec32_def vbyte_consts)
qed

text \<open>
  Claim C6.  For an array \<open>xs\<close> of \<open>n\<close> values, \<open>vbEnc32\<close> produces the escape form,
  the byte \<open>0xFF\<close> followed by the \<open>n\<close> values as raw little-endian 32-bit words
  (\<open>1 + 4 n\<close> bytes), exactly when the per-value encoding of the whole array occupies
  more than \<open>4 n - 32\<close> bytes, that is when its size plus 32 exceeds \<open>4 n\<close>; otherwise
  it returns the per-value encoding.  \<open>vbDec32\<close> reads the raw form when the first byte
  is \<open>0xFF\<close> and the per-value form otherwise, and gives back \<open>xs\<close> and the input
  behind the encoding (the buffer reaching one byte beyond it, for the 32-bit load of
  the four-byte form).
\<close>

theorem vbEnc32_escape_threshold_vbDec32_inverse:
  assumes "length xs = n"
  shows
    "((vbEnc32 xs n = 0xFF # concat (map (le_bytes 4) xs) \<and> length (vbEnc32 xs n) = 1 + 4 * n)
        \<longleftrightarrow> int (length (concat (map vbPut32 xs))) > 4 * int n - 32) \<and>
     (\<not> length (concat (map vbPut32 xs)) + 32 > 4 * n \<longrightarrow>
        vbEnc32 xs n = concat (map vbPut32 xs)) \<and>
     (rest \<noteq> [] \<longrightarrow> vbDec32 (vbEnc32 xs n @ rest) n = Inr (xs, rest)) \<and>
     vbDec32 (0xFF # ip) n =
        (case copyU32ArrayFromLe ip n of Inl e \<Rightarrow> Inl e | Inr vs \<Rightarrow> Inr (vs, drop (n * 4) ip)) \<and>
     (c \<noteq> 0xFF \<longrightarrow> vbDec32 (c # ip) n = vbDec32_loop n (c # ip))"
  using assms by (rule vb_enc_dec_all)

theorem vbEnc32_escape_threshold_vbDec32_inverse_witness:
  "length [1, 2 :: u32] = 2 \<and>
   vbEnc32 [1, 2] 2 = [0xFF, 1, 0, 0, 0, 2, 0, 0, 0] \<and>
   length (replicate 11 (0 :: u32)) = 11 \<and>
   \<not> length (concat (map vbPut32 (replicate 11 0))) + 32 > 4 * 11 \<and>
   vbEnc32 (replicate 11 0) 11 = concat (map vbPut32 (replicate 11 0)) \<and>
   [7 :: byte] \<noteq> [] \<and>
   vbDec32 (vbEnc32 [1, 2] 2 @ [7]) 2 = Inr ([1, 2], [7]) \<and>
   (3 :: byte) \<noteq> 0xFF \<and> vbDec32 [3, 4] 2 = vbDec32_loop 2 [3, 4]"
proof -
  have l1: "length [1, 2 :: u32] = 2" by simp
  have l2: "length (replicate 11 (0 :: u32)) = 11" by simp
  have p0: "vbPut32 0 = [0]" by (simp add: vbPut32_def vbyte_consts)
  have p1: "vbPut32 1 = [1]" by (simp add: vbPut32_def vbyte_consts)
  have p2: "vbPut32 2 = [2]" by (simp add: vbPut32_def vbyte_consts)
  have n2: "\<not> length (concat (map vbPut32 (replicate 11 0))) + 32 > 4 * 11"
    by (simp add: p0 eval_nat_numeral)
  have g1: "int (length (concat (map vbPut32 [1, 2]))) > 4 * int 2 - 32"
    by (simp add: p1 p2)
  have r: "[7 :: byte] \<noteq> []" by simp
  have c: "(3 :: byte) \<noteq> 0xFF" by simp
  note t1 = vbEnc32_escape_threshold_vbDec32_inverse [OF l1, of "[7]" "[4]" 3]
  note t2 = vbEnc32_escape_threshold_vbDec32_inverse [OF l2, of "[7]" "[4]" 3]
  have e1: "vbEnc32 [1, 2] 2 = 0xFF # concat (map (le_bytes 4) [1, 2 :: u32])"
    using t1 g1 by blast
  have e2: "vbEnc32 (replicate 11 0) 11 = concat (map vbPut32 (replicate 11 0))"
    using t2 n2 by blast
  have d1: "vbDec32 (vbEnc32 [1, 2] 2 @ [7]) 2 = Inr ([1, 2], [7])"
    using t1 r by blast
  have d2: "vbDec32 [3, 4] 2 = vbDec32_loop 2 [3, 4]"
    using t1 c by blast
  have e1': "vbEnc32 [1, 2] 2 = [0xFF, 1, 0, 0, 0, 2, 0, 0, 0]"
    unfolding e1 by (simp add: le_bytes_4)
  show ?thesis using l2 n2 e1' e2 d1 d2 by simp
qed

lemma fold_or_zero:
  "\<forall>x\<in>set xs. x = 0 \<Longrightarrow> fold (\<lambda>v acc. acc OR v) xs (0::u32) = 0"
  by (induction xs) simp_all

lemma p4Bits32_all_zero:
  assumes "\<forall>x\<in>set xs. x = 0"
  shows "p4Bits32 xs n = (0, 0)"
proof -
  have "\<forall>x\<in>set (take n xs). x = 0" using assms by (meson in_set_takeD)
  hence "fold (\<lambda>v acc. acc OR v) (take n xs) (0::u32) = 0" by (rule fold_or_zero)
  thus ?thesis by (simp add: p4Bits32_def Let_def)
qed

text \<open>
  Claim C3 (amended).  For the block \<open>n = 4\<close>, \<open>X = [42, 42, 42, 42]\<close>, \<open>s = 0\<close>: the
  analyzer returns \<open>b = bw(42) = 6\<close> with \<open>bx = 34\<close> (constant), the encoded output is
  exactly the two bytes \<open>0xC6\<close> and \<open>0x2A\<close>, and decoding those two bytes with \<open>n = 4\<close>
  and \<open>start = 0\<close> yields \<open>[43, 86, 129, 172]\<close>, the delta1 reconstruction
  \<open>out[i] = out[i-1] + 42 + 1\<close>, and consumes both bytes.
\<close>

theorem constant_block_42_example:
  "bitWidth32 42 = 6 \<and>
   p4Bits32 [42, 42, 42, 42] 4 = (6, 34) \<and>
   p4Enc32 [42, 42, 42, 42] 4 = Inr [0xC6, 0x2A] \<and>
   p4D1Dec32 [0xC6, 0x2A] 4 0 = Inr ([43, 86, 129, 172], [])"
  by code_simp

text \<open>
  Claim C3 as stated fails: the decoded output of the two bytes is not
  \<open>[43, 85, 127, 169]\<close>.
\<close>

theorem constant_block_42_counterexample:
  "\<not> (p4Bits32 [42, 42, 42, 42] 4 = (6, 34) \<and>
      p4Enc32 [42, 42, 42, 42] 4 = Inr [0xC6, 0x2A] \<and>
      p4D1Dec32 [0xC6, 0x2A] 4 0 = Inr ([43, 85, 127, 169], []))"
  by code_simp

text \<open>
  Claim C8.  If all \<open>n\<close> input values are zero, the encoder emits exactly the single byte
  \<open>0x00\<close>, and decoding that block with any seed \<open>s\<close> yields the arithmetic progression
  \<open>[s + 1, s + 2, ..., s + n]\<close> and consumes one byte; in particular \<open>n = 4\<close>, \<open>s = 0\<close>
  encodes to \<open>[0x00]\<close> and decodes to \<open>[1, 2, 3, 4]\<close>.
\<close>

theorem all_zero_block:
  assumes "length xs = n" and "\<forall>x\<in>set xs. x = 0"
  shows "p4Enc32 xs n = Inr [0x00] \<and>
         p4D1Dec32 (0x00 # rest) n s = Inr (map (\<lambda>i. s + of_nat i + 1) [0..<n], rest) \<and>
         p4Enc32 [0, 0, 0, 0] 4 = Inr [0x00] \<and>
         p4D1Dec32 [0x00] 4 0 = Inr ([1, 2, 3, 4], [])"
proof -
  have b: "p4Bits32 xs n = (0, 0)" using assms(2) by (rule p4Bits32_all_zero)
  have e: "p4Enc32 xs n = Inr [0x00]"
    by (simp add: p4Enc32_def b p4Enc32Payload_def writeHeader_def)
  have d: "p4D1Dec32 (0x00 # rest) n s = Inr (map (\<lambda>i. s + of_nat i + 1) [0..<n], rest)"
    by (simp add: p4D1Dec32_def bitunpackd1_32Scalar_def Bitunpack32ScalarImpl_dispatch_def)
  have c: "p4Enc32 [0, 0, 0, 0] 4 = Inr [0x00] \<and> p4D1Dec32 [0x00] 4 0 = Inr ([1, 2, 3, 4], [])"
    by code_simp
  show ?thesis using e d c by simp
qed

theorem all_zero_block_witness:
  "length [0, 0, 0 :: u32] = 3 \<and> set [0, 0, 0 :: u32] = {0} \<and>
   p4Enc32 [0, 0, 0] 3 = Inr [0x00] \<and>
   p4D1Dec32 [0x00, 9] 3 10 = Inr ([11, 12, 13], [9])"
proof -
  have l: "length [0, 0, 0 :: u32] = 3" by simp
  have z: "\<forall>x\<in>set [0, 0, 0 :: u32]. x = 0" by simp
  have m: "map (\<lambda>i. (10 :: u32) + of_nat i + 1) [0..<3] = [11, 12, 13]"
    by (simp add: upt_rec)
  show ?thesis
    using all_zero_block [OF l z, of "[9]" 10] l z m by simp
qed



lemma length_pack_one [simp]: "length (pack_one B Base xs I w) = length w"
  by (simp add: pack_one_def Let_def)

lemma length_fold_pack_one: "length (fold (pack_one B Base xs) js w) = length w"
  by (induction js arbitrary: w) simp_all

lemma length_pack_all [simp]: "length (pack_all B Base K xs w) = length w"
  by (simp add: pack_all_def length_fold_pack_one)




















lemma p4Bits32_choose_fields [simp]:
  "exception_count (p4Bits32_choose n m b s) = exception_count s"
  "vbyte_size_accumulator (p4Bits32_choose n m b s) = vbyte_size_accumulator s"
  "vbyte_accumulator (p4Bits32_choose n m b s) = vbyte_accumulator s"
  by (simp_all add: p4Bits32_choose_def Let_def)

lemma p4Bits32_advance_fields [simp]:
  "min_size (p4Bits32_advance c b s) = min_size s"
  "optimal_base_bits (p4Bits32_advance c b s) = optimal_base_bits s"
  "use_vbyte_exceptions (p4Bits32_advance c b s) = use_vbyte_exceptions s"
  by (simp_all add: p4Bits32_advance_def)








lemma spec_failure_simps [simp]:
  "\<not> spec_failure (Inr x)"
  "spec_failure (Inl e) \<longleftrightarrow> e = CorruptHeader \<or> e = Truncated"
  by (auto simp add: spec_failure_def)

lemma spec_failure_case_sum:
  "spec_failure (case r of Inl e \<Rightarrow> Inl e | Inr x \<Rightarrow> f x)
     \<longleftrightarrow> spec_failure r \<or> (\<exists>x. r = Inr x \<and> spec_failure (f x))"
  by (cases r) (auto simp add: spec_failure_def)

lemma loads_ub [simp]:
  "\<not> spec_failure (loadU16Fast ip)" "\<not> spec_failure (loadU24 ip)"
  "\<not> spec_failure (loadU32Fast ip)" "\<not> spec_failure (loadU64Fast ip)"
  "\<not> spec_failure (load_partial R ip)"
  by (simp_all add: loadU16Fast_def loadU24_def loadU32Fast_def loadU64Fast_def load_partial_def
      del: le_word.simps)

lemma load_elem_ub [simp]: "\<not> spec_failure (load_elem B ip)"
  by (auto simp add: load_elem_def spec_failure_case_sum split: list.splits)

lemma load_words_ub [simp]: "\<not> spec_failure (load_words k ip)"
  by (induction k arbitrary: ip) (auto simp add: spec_failure_case_sum)

lemma unpack_block_ub [simp]: "\<not> spec_failure (unpack_block D B K Base ip acc)"
  by (auto simp add: unpack_block_def Let_def spec_failure_case_sum)

lemma unpack_blocks_ub [simp]: "\<not> spec_failure (unpack_blocks D B N Base ip acc)"
proof (induction D B N Base ip acc rule: unpack_blocks.induct)
  case (1 D B N Base ip acc)
  show ?case using "1.IH"
    by (subst unpack_blocks.simps)
      (auto simp add: Let_def spec_failure_case_sum split: prod.splits if_splits)
qed

lemma unpack_aligned_ub [simp]: "\<not> spec_failure (unpack_aligned D B i k ip start)"
  by (induction k arbitrary: i ip start)
    (auto simp add: Let_def spec_failure_case_sum split: prod.splits)

lemma unpack_n_b_ub [simp]: "\<not> spec_failure (unpack_n_b D B N ip start)"
  by (simp add: unpack_n_b_def unpack_b32_d1_32_def unpack_b16_d1_32_def unpack_b8_d1_32_def)

lemma bitunpack_b_ub [simp]: "\<not> spec_failure (bitunpack_b D B ip n start)"
proof (induction D B ip n start rule: bitunpack_b.induct)
  case (1 D B ip n start)
  show ?case using "1.IH"
    by (subst bitunpack_b.simps)
      (auto simp add: Let_def spec_failure_case_sum split: prod.splits if_splits)
qed

lemma dispatch_ub [simp]:
  "\<not> spec_failure (Bitunpack32ScalarImpl_dispatch D ip n start b)"
  "\<not> spec_failure (bitunpack32Scalar ip n b)"
  "\<not> spec_failure (bitunpackd1_32Scalar ip n start b)"
  by (simp_all add: Bitunpack32ScalarImpl_dispatch_def bitunpack32Scalar_def
      bitunpackd1_32Scalar_def)

lemma copyU32ArrayFromLe_ub [simp]: "\<not> spec_failure (copyU32ArrayFromLe ip n)"
  by (induction n arbitrary: ip) (auto simp add: spec_failure_case_sum)

lemma vbGet32Inline_ub [simp]: "\<not> spec_failure (vbGet32Inline ip)"
  by (auto simp add: vbGet32Inline_def Let_def spec_failure_case_sum split: list.splits)

lemma vbDec32_loop_ub [simp]: "\<not> spec_failure (vbDec32_loop n ip)"
  by (induction n arbitrary: ip) (auto simp add: spec_failure_case_sum split: prod.splits)

lemma vbDec32_ub [simp]: "\<not> spec_failure (vbDec32 ip n)"
  by (auto simp add: vbDec32_def spec_failure_case_sum split: list.splits)

lemma load_bitmap_ub [simp]:
  "\<not> spec_failure (load_bitmap_word ip n w i)"
  "\<not> spec_failure (load_bitmap ip n w js)"
proof -
  show a: "\<not> spec_failure (load_bitmap_word ip n w i)" for i
    by (auto simp add: load_bitmap_word_def spec_failure_case_sum)
  show "\<not> spec_failure (load_bitmap ip n w js)"
    by (induction js) (auto simp add: spec_failure_case_sum a)
qed

lemma merge_word_ub [simp]: "\<not> spec_failure (merge_word word wi b ex st)"
proof (induction word wi b ex st rule: merge_word.induct)
  case (1 word wi b ex st)
  show ?case using "1.IH"
    by (subst merge_word.simps) (auto simp add: Let_def)
qed

lemma merge_words_ub [simp]: "\<not> spec_failure (merge_words ws wi b ex st)"
  by (induction ws arbitrary: wi st) (auto simp add: spec_failure_case_sum)

lemma merge_positions_ub [simp]: "\<not> spec_failure (merge_positions ip es b out)"
  by (induction es arbitrary: ip out) (auto simp add: Let_def split: list.splits)

lemma p4D1DecPayloadExceptions_ub [simp]:
  "\<not> spec_failure (p4D1DecPayloadExceptions ip n start b bx)"
  by (auto simp add: p4D1DecPayloadExceptions_def Let_def spec_failure_case_sum
      split: prod.splits)

lemma p4D1Dec32_ub: "\<not> spec_failure (p4D1Dec32 ip n start)"
  by (auto simp add: p4D1Dec32_def Let_def spec_failure_case_sum
      split: prod.splits list.splits simp del: le_word.simps)


lemma dispatch_wide:
  "32 < b \<Longrightarrow> Bitunpack32ScalarImpl_dispatch D ip n start b = Inl TableIndexOutOfRange"
  by (simp add: Bitunpack32ScalarImpl_dispatch_def)

lemma p4D1DecPayloadExceptions_wide:
  "32 < b \<Longrightarrow> \<exists>e. p4D1DecPayloadExceptions ip n start b bx = Inl e"
  by (auto simp add: p4D1DecPayloadExceptions_def Let_def bitunpack32Scalar_def dispatch_wide
      split: sum.splits prod.splits)

text \<open>
  Claim C2 (amended).  The decoder has no check of the header and no failure result: it
  never fails with \<open>CorruptHeader\<close> (nor with \<open>Truncated\<close>).  A header whose base
  width, after masking off the flag bits, exceeds 32 is used as it is: in the simple
  form, in the bitmap form without exceptions and in the variable-byte form the width
  indexes the 33-entry unpack table out of range; in the constant form the byte count
  \<open>\<lceil>b / 8\<rceil> > 4\<close> reaches the unreachable default of the switch; in the bitmap form
  with exceptions the run ends in one of these faults or an earlier one.  Each is
  undefined behaviour of the program and a fault of the model; no output is produced.
\<close>

theorem wide_header_not_rejected:
  "\<not> spec_failure (p4D1Dec32 ip n start) \<and>
   (unat h AND 0xC0 = 0 \<and> 32 < unat h \<longrightarrow>
      p4D1Dec32 (h # rest) n start = Inl TableIndexOutOfRange) \<and>
   (unat h AND 0xC0 \<noteq> 0 \<and> unat h AND 0x40 = 0 \<and> 32 < unat h AND 0x7F \<longrightarrow>
      p4D1Dec32 (h # 0 # rest) n start = Inl TableIndexOutOfRange \<and>
      (\<exists>e. p4D1Dec32 (h # x # rest) n start = Inl e)) \<and>
   (unat h AND 0xC0 \<noteq> 0 \<and> unat h AND 0x40 \<noteq> 0 \<and> unat h AND 0xC0 = 0xC0 \<and>
    32 < unat h AND 0x3F \<longrightarrow>
      p4D1Dec32 (h # rest) n start = Inl UnreachableReached) \<and>
   (unat h AND 0xC0 \<noteq> 0 \<and> unat h AND 0x40 \<noteq> 0 \<and> unat h AND 0xC0 \<noteq> 0xC0 \<and>
    32 < unat h AND 0x3F \<longrightarrow>
      p4D1Dec32 (h # x # rest) n start = Inl TableIndexOutOfRange)"
proof -
  have simple: "p4D1Dec32 (h # rest) n start = Inl TableIndexOutOfRange"
    if "unat h AND 0xC0 = 0" "32 < unat h"
    using that by (simp add: p4D1Dec32_def bitunpackd1_32Scalar_def dispatch_wide)
  have bitmap0: "p4D1Dec32 (h # 0 # rest) n start = Inl TableIndexOutOfRange"
    if "unat h AND 0xC0 \<noteq> 0" "unat h AND 0x40 = 0" "32 < unat h AND 0x7F"
    using that by (simp add: p4D1Dec32_def Let_def bitunpackd1_32Scalar_def dispatch_wide)
  have bitmap: "\<exists>e. p4D1Dec32 (h # x # rest) n start = Inl e"
    if "unat h AND 0xC0 \<noteq> 0" "unat h AND 0x40 = 0" "32 < unat h AND 0x7F"
    using that p4D1DecPayloadExceptions_wide [of "unat h AND 0x7F" rest n start "unat x"]
    by (simp add: p4D1Dec32_def Let_def bitunpackd1_32Scalar_def dispatch_wide)
  have const: "p4D1Dec32 (h # rest) n start = Inl UnreachableReached"
    if "unat h AND 0xC0 \<noteq> 0" "unat h AND 0x40 \<noteq> 0" "unat h AND 0xC0 = 0xC0"
      "32 < unat h AND 0x3F"
  proof -
    define b where "b = unat h AND 0x3F"
    have "4 < (b + 7) div 8" using that(4) unfolding b_def [symmetric] by linarith
    thus ?thesis using that(1,2,3)
      by (simp add: p4D1Dec32_def Let_def b_def [symmetric])
  qed
  have vbyte: "p4D1Dec32 (h # x # rest) n start = Inl TableIndexOutOfRange"
    if "unat h AND 0xC0 \<noteq> 0" "unat h AND 0x40 \<noteq> 0" "unat h AND 0xC0 \<noteq> 0xC0"
      "32 < unat h AND 0x3F"
    using that by (simp add: p4D1Dec32_def Let_def bitunpack32Scalar_def dispatch_wide)
  show ?thesis
    using p4D1Dec32_ub [of ip n start] simple bitmap0 bitmap const vbyte by blast
qed

theorem wide_header_not_rejected_witness:
  "p4D1Dec32 [0x21, 1, 2, 3, 4, 5, 6, 7, 8] 1 0 = Inl TableIndexOutOfRange \<and>
   p4D1Dec32 [0xA1, 0, 2, 3, 4, 5, 6, 7, 8] 1 0 = Inl TableIndexOutOfRange \<and>
   p4D1Dec32 [0xE1, 1, 2, 3, 4, 5, 6, 7, 8] 1 0 = Inl UnreachableReached \<and>
   p4D1Dec32 [0x61, 1, 2, 3, 4, 5, 6, 7, 8] 1 0 = Inl TableIndexOutOfRange"
proof -
  have h1: "unat (0x21 :: byte) AND 0xC0 = 0 \<and> 32 < unat (0x21 :: byte)" by code_simp
  have h2: "unat (0xA1 :: byte) AND 0xC0 \<noteq> 0 \<and> unat (0xA1 :: byte) AND 0x40 = 0 \<and>
      32 < unat (0xA1 :: byte) AND 0x7F" by code_simp
  have h3: "unat (0xE1 :: byte) AND 0xC0 \<noteq> 0 \<and> unat (0xE1 :: byte) AND 0x40 \<noteq> 0 \<and>
      unat (0xE1 :: byte) AND 0xC0 = 0xC0 \<and> 32 < unat (0xE1 :: byte) AND 0x3F" by code_simp
  have h4: "unat (0x61 :: byte) AND 0xC0 \<noteq> 0 \<and> unat (0x61 :: byte) AND 0x40 \<noteq> 0 \<and>
      unat (0x61 :: byte) AND 0xC0 \<noteq> 0xC0 \<and> 32 < unat (0x61 :: byte) AND 0x3F" by code_simp
  have c1: "p4D1Dec32 (0x21 # [1, 2, 3, 4, 5, 6, 7, 8]) 1 0 = Inl TableIndexOutOfRange"
    using wide_header_not_rejected [of "[]" 1 0 "0x21" "[1, 2, 3, 4, 5, 6, 7, 8]" 0] h1 by blast
  have c2: "p4D1Dec32 (0xA1 # 0 # [2, 3, 4, 5, 6, 7, 8]) 1 0 = Inl TableIndexOutOfRange"
    using wide_header_not_rejected [of "[]" 1 0 "0xA1" "[2, 3, 4, 5, 6, 7, 8]" 0] h2 by blast
  have c3: "p4D1Dec32 (0xE1 # [1, 2, 3, 4, 5, 6, 7, 8]) 1 0 = Inl UnreachableReached"
    using wide_header_not_rejected [of "[]" 1 0 "0xE1" "[1, 2, 3, 4, 5, 6, 7, 8]" 0] h3 by blast
  have c4: "p4D1Dec32 (0x61 # 1 # [2, 3, 4, 5, 6, 7, 8]) 1 0 = Inl TableIndexOutOfRange"
    using wide_header_not_rejected [of "[]" 1 0 "0x61" "[2, 3, 4, 5, 6, 7, 8]" 1] h4 by blast
  show ?thesis using c1 c2 c3 c4 by simp
qed

text \<open>
  Claim C2 as stated fails: with the header byte \<open>0x21\<close> (simple form, \<open>b = 33\<close>) the
  decoder does not fail with \<open>CorruptHeader\<close>; it indexes the unpack table with 33.
\<close>

theorem wide_header_counterexample:
  "p4D1Dec32 [0x21, 1, 2, 3, 4, 5, 6, 7, 8] 1 0 \<noteq> Inl CorruptHeader \<and>
   p4D1Dec32 [0x21, 1, 2, 3, 4, 5, 6, 7, 8] 1 0 = Inl TableIndexOutOfRange"
  by code_simp

end
